theory Spec2Isabelle
  imports Complex_Main "HOL-Library.Multiset" "HOL-Library.Sublist"
begin

section \<open>Career tracker: JSON values and the JavaScript operations the code applies to them\<close>

text \<open>
  The server (\<^verbatim>\<open>src/backend/server.js\<close>) keeps one JSON array of application records in
  a file and serves it over REST; the client (\<^verbatim>\<open>src/unnamed/part_000\<close>) derives a
  filtered and sorted view of that array. Both handle plain JSON data, so the model starts
  with JSON values.

  Conventions of the model:
  \<^item> a JavaScript string is a \<open>string\<close>; each \<open>char\<close> stands for one UTF-16 code unit below
    256 (Latin-1), so the model covers the strings over these code units;
  \<^item> a JSON number is an \<open>int\<close>: the numbers the code looks at are ids and time values,
    which are integers (exact as doubles up to \<open>2^53\<close>);
  \<^item> an object is an association list in insertion order; a well-formed object has
    distinct keys, as \<^verbatim>\<open>JSON.parse\<close> produces them;
  \<^item> \<^verbatim>\<open>undefined\<close> is \<open>None\<close> of \<open>json option\<close>, \<^verbatim>\<open>NaN\<close> is \<open>None\<close> of \<open>int option\<close>.
\<close>

datatype json =
    JNull
  | JBool bool
  | JNum int
  | JStr string
  | JArr "json list"
  | JObj "(string \<times> json) list"

type_synonym application = "(string \<times> json) list"

text \<open>Decimal digits of a non-negative integer, as \<^verbatim>\<open>String(n)\<close> prints them.\<close>

function digits :: "int \<Rightarrow> string" where
  "digits n = (if n < 10 then [char_of (48 + n)] else digits (n div 10) @ [char_of (48 + n mod 10)])"
  by pat_completeness auto
termination
  by (relation "measure nat") auto

declare digits.simps [simp del]

text \<open>
  Member access \<^verbatim>\<open>data.k\<close> for the names the code reads (\<^verbatim>\<open>company\<close>, \<^verbatim>\<open>role\<close>,
  \<^verbatim>\<open>date\<close>, \<^verbatim>\<open>status\<close>, \<^verbatim>\<open>id\<close>): the value stored under the key of an object,
  \<^verbatim>\<open>undefined\<close> when the key is absent and on an array. The body parser
  (\<^verbatim>\<open>express.json()\<close>, strict) hands the routes objects and arrays only.
\<close>

fun getProp :: "json \<Rightarrow> string \<Rightarrow> json option" where
  "getProp (JObj kvs) k = map_of kvs k"
| "getProp _ k = None"

text \<open>The own enumerable properties that a spread \<^verbatim>\<open>...v\<close> copies, in order.\<close>

fun ownProps :: "json \<Rightarrow> (string \<times> json) list" where
  "ownProps (JObj kvs) = kvs"
| "ownProps (JArr xs) = zip (map (\<lambda>i. digits (int i)) [0..<length xs]) xs"
| "ownProps (JStr s) = zip (map (\<lambda>i. digits (int i)) [0..<length s]) (map (\<lambda>c. JStr [c]) s)"
| "ownProps _ = []"

text \<open>
  Defining a property on an object literal under construction: an existing key keeps
  its position and takes the new value, a new key goes to the end.
\<close>

fun setProp :: "string \<Rightarrow> json \<Rightarrow> application \<Rightarrow> application" where
  "setProp k v [] = [(k, v)]"
| "setProp k v ((k', v') # ps) = (if k = k' then (k, v) # ps else (k', v') # setProp k v ps)"

text \<open>
  The object literal \<^verbatim>\<open>{ id: n, ...body }\<close>: the \<^verbatim>\<open>id\<close> property is defined first, then
  every own property of \<^verbatim>\<open>body\<close> is defined over it, in order.
\<close>

definition spreadOver :: "application \<Rightarrow> json \<Rightarrow> application" where
  "spreadOver base body = fold (\<lambda>(k, v) acc. setProp k v acc) (ownProps body) base"

text \<open>Truthiness (\<^verbatim>\<open>!v\<close> is its negation).\<close>

fun truthy :: "json option \<Rightarrow> bool" where
  "truthy None = False"
| "truthy (Some JNull) = False"
| "truthy (Some (JBool b)) = b"
| "truthy (Some (JNum n)) = (n \<noteq> 0)"
| "truthy (Some (JStr s)) = (s \<noteq> [])"
| "truthy (Some (JArr _)) = True"
| "truthy (Some (JObj _)) = True"

text \<open>\<^verbatim>\<open>typeof v === 'string'\<close>.\<close>

fun isString :: "json option \<Rightarrow> bool" where
  "isString (Some (JStr _)) = True"
| "isString _ = False"

text \<open>
  Strict equality \<^verbatim>\<open>a === b\<close> of two values that come from different sources (a stored
  record, the request): primitives compare by value, two arrays or objects are never the
  same reference.
\<close>

fun strictEq :: "json option \<Rightarrow> json option \<Rightarrow> bool" where
  "strictEq None None = True"
| "strictEq (Some JNull) (Some JNull) = True"
| "strictEq (Some (JBool a)) (Some (JBool b)) = (a = b)"
| "strictEq (Some (JNum a)) (Some (JNum b)) = (a = b)"
| "strictEq (Some (JStr a)) (Some (JStr b)) = (a = b)"
| "strictEq _ _ = False"

text \<open>\<^verbatim>\<open>a.id === n\<close> for a number \<open>n\<close> that may be \<^verbatim>\<open>NaN\<close>, which equals nothing.\<close>

fun eqNumber :: "json option \<Rightarrow> int option \<Rightarrow> bool" where
  "eqNumber (Some (JNum a)) (Some n) = (a = n)"
| "eqNumber _ _ = False"

text \<open>A number as JSON: \<^verbatim>\<open>JSON.stringify\<close> writes \<^verbatim>\<open>NaN\<close> as \<^verbatim>\<open>null\<close>.\<close>

fun numJson :: "int option \<Rightarrow> json" where
  "numJson (Some n) = JNum n"
| "numJson None = JNull"

subsection \<open>Strings: white space, \<^verbatim>\<open>trim\<close>, \<^verbatim>\<open>toLowerCase\<close>, \<^verbatim>\<open>includes\<close>, \<^verbatim>\<open>parseInt\<close>\<close>

text \<open>White space and line terminators among the code units below 256.\<close>

definition isWhiteSpace :: "char \<Rightarrow> bool" where
  "isWhiteSpace c = ((of_char c :: nat) \<in> {9, 10, 11, 12, 13, 32, 160})"

definition trim :: "string \<Rightarrow> string" where
  "trim s = rev (dropWhile isWhiteSpace (rev (dropWhile isWhiteSpace s)))"

text \<open>
  \<^verbatim>\<open>toLowerCase\<close> on code units below 256: the letters A to Z and the accented capitals
  \<open>0xC0\<close> to \<open>0xDE\<close> (the multiplication sign \<open>0xD7\<close> apart) move up by 32.
\<close>

definition lowerChar :: "char \<Rightarrow> char" where
  "lowerChar c =
     (let n = (of_char c :: nat)
      in if (65 \<le> n \<and> n \<le> 90) \<or> (192 \<le> n \<and> n \<le> 222 \<and> n \<noteq> 215) then char_of (n + 32) else c)"

definition toLowerCase :: "string \<Rightarrow> string" where
  "toLowerCase s = map lowerChar s"

fun startsWith :: "string \<Rightarrow> string \<Rightarrow> bool" where
  "startsWith s [] = True"
| "startsWith [] (c # t) = False"
| "startsWith (d # s) (c # t) = (d = c \<and> startsWith s t)"

text \<open>\<^verbatim>\<open>s.includes(t)\<close>: \<open>t\<close> occurs in \<open>s\<close> as a contiguous substring.\<close>

fun strIncludes :: "string \<Rightarrow> string \<Rightarrow> bool" where
  "strIncludes [] t = (t = [])"
| "strIncludes (c # s) t = (startsWith (c # s) t \<or> strIncludes s t)"

text \<open>The value of a digit in a radix, if it is one.\<close>

definition digitValue :: "nat \<Rightarrow> char \<Rightarrow> nat option" where
  "digitValue radix c =
     (let n = (of_char c :: nat);
          v = (if 48 \<le> n \<and> n \<le> 57 then Some (n - 48)
               else if 97 \<le> n \<and> n \<le> 122 then Some (n - 87)
               else if 65 \<le> n \<and> n \<le> 90 then Some (n - 55)
               else None)
      in case v of None \<Rightarrow> None | Some d \<Rightarrow> if d < radix then Some d else None)"

text \<open>
  \<^verbatim>\<open>parseInt(s)\<close> with no radix: leading white space is skipped, a sign is read, a
  \<^verbatim>\<open>0x\<close> prefix selects radix 16, the longest run of digits is the value, and no digit
  at all is \<^verbatim>\<open>NaN\<close>. (Beyond \<open>2^53\<close> the runtime rounds the value; the model does not.)
\<close>

definition parseInt :: "string \<Rightarrow> int option" where
  "parseInt s =
     (let s1 = dropWhile isWhiteSpace s;
          sign = (if s1 \<noteq> [] \<and> hd s1 = CHR ''-'' then (-1::int) else 1);
          s2 = (if s1 \<noteq> [] \<and> (hd s1 = CHR ''+'' \<or> hd s1 = CHR ''-'') then tl s1 else s1);
          hex = (startsWith s2 ''0x'' \<or> startsWith s2 ''0X'');
          radix = (if hex then 16 else (10::nat));
          s3 = (if hex then drop 2 s2 else s2);
          ds = takeWhile (\<lambda>c. digitValue radix c \<noteq> None) s3
      in if ds = [] then None
         else Some (sign * int (foldl (\<lambda>acc c. acc * radix + the (digitValue radix c)) 0 ds)))"

subsection \<open>Dates\<close>

text \<open>
  \<^verbatim>\<open>Date.parse\<close> is the runtime's, and outside the ISO format its result is left to the
  implementation. The model takes it as a parameter \<open>dp\<close>: \<open>dp v\<close> is
  \<^verbatim>\<open>Date.parse(v)\<close> for a JSON value \<open>v\<close> (converted to a string first, as the runtime
  does), in milliseconds, \<open>None\<close> for \<^verbatim>\<open>NaN\<close>.
\<close>

type_synonym dateParse = "json \<Rightarrow> int option"

text \<open>
  The time value of \<^verbatim>\<open>new Date(v)\<close>: \<^verbatim>\<open>undefined\<close> gives an invalid date, a string is
  parsed, \<^verbatim>\<open>null\<close>, a boolean and a number are taken as milliseconds (clipped at
  \<open>8.64e15\<close>), an array or object is converted to a string and parsed.
\<close>

fun newDate :: "dateParse \<Rightarrow> json option \<Rightarrow> int option" where
  "newDate dp None = None"
| "newDate dp (Some JNull) = Some 0"
| "newDate dp (Some (JBool b)) = Some (if b then 1 else 0)"
| "newDate dp (Some (JNum n)) = (if \<bar>n\<bar> \<le> 8640000000000000 then Some n else None)"
| "newDate dp (Some v) = dp v"

text \<open>\<^verbatim>\<open>dateA - dateB\<close>: the difference of two time values, \<^verbatim>\<open>NaN\<close> if either is.\<close>

fun dateDiff :: "int option \<Rightarrow> int option \<Rightarrow> int option" where
  "dateDiff (Some a) (Some b) = Some (a - b)"
| "dateDiff _ _ = None"

text \<open>
  \<^verbatim>\<open>Array.prototype.sort(cmp)\<close>: a stable sort driven by the comparator; a comparator
  result of \<^verbatim>\<open>NaN\<close> counts as 0. For a consistent comparator the result is the one the
  language fixes; it is computed here by stable insertion.
\<close>

fun sortInsert :: "('a \<Rightarrow> 'a \<Rightarrow> int option) \<Rightarrow> 'a \<Rightarrow> 'a list \<Rightarrow> 'a list" where
  "sortInsert cmp x [] = [x]"
| "sortInsert cmp x (y # ys) =
     (if (case cmp x y of None \<Rightarrow> True | Some r \<Rightarrow> r \<le> 0) then x # y # ys
      else y # sortInsert cmp x ys)"

definition jsSort :: "('a \<Rightarrow> 'a \<Rightarrow> int option) \<Rightarrow> 'a list \<Rightarrow> 'a list" where
  "jsSort cmp xs = foldr (sortInsert cmp) xs []"

section \<open>The server\<close>

subsection \<open>The data file\<close>

text \<open>
  The state of the data file: its content, \<open>None\<close> when it cannot be read or parsed, and
  whether writing it fails (with the error's message). A content that parses is an array
  of objects, which is what \<^verbatim>\<open>initDataFile\<close> and every write of the server leave in
  the file. A failed write leaves the content as it was.
\<close>

record disk =
  content :: "application list option"
  writeError :: "string option"

text \<open>\<^verbatim>\<open>readData\<close>: a failure to read is caught and logged, and the result is \<^verbatim>\<open>[]\<close>.\<close>

definition readData :: "disk \<Rightarrow> application list" where
  "readData d = (case content d of Some apps \<Rightarrow> apps | None \<Rightarrow> [])"

text \<open>\<^verbatim>\<open>writeData\<close>: a failure to write is logged and thrown again.\<close>

definition writeData :: "application list \<Rightarrow> disk \<Rightarrow> string + disk" where
  "writeData apps d =
     (case writeError d of Some msg \<Rightarrow> Inl msg | None \<Rightarrow> Inr (d\<lparr>content := Some apps\<rparr>))"

subsection \<open>Validation\<close>

record validation =
  isValid :: bool
  errors :: "string list"

definition validStatuses :: "string list" where
  "validStatuses = [''Applied'', ''Interview'', ''Offer'', ''Rejected'']"

text \<open>\<^verbatim>\<open>validStatuses.includes(v)\<close>.\<close>

definition statusIncluded :: "json option \<Rightarrow> bool" where
  "statusIncluded v = list_ex (\<lambda>s. strictEq v (Some (JStr s))) validStatuses"

text \<open>\<^verbatim>\<open>isNaN(Date.parse(data.date))\<close>; \<^verbatim>\<open>Date.parse(undefined)\<close> is \<^verbatim>\<open>NaN\<close>.\<close>

definition dateIsNaN :: "dateParse \<Rightarrow> json option \<Rightarrow> bool" where
  "dateIsNaN dp v = (case v of None \<Rightarrow> True | Some j \<Rightarrow> dp j = None)"

definition companyBad :: "json \<Rightarrow> bool" where
  "companyBad data =
     (\<not> truthy (getProp data ''company'') \<or> \<not> isString (getProp data ''company'')
      \<or> (case getProp data ''company'' of Some (JStr s) \<Rightarrow> trim s = [] | _ \<Rightarrow> False))"

definition roleBad :: "json \<Rightarrow> bool" where
  "roleBad data =
     (\<not> truthy (getProp data ''role'') \<or> \<not> isString (getProp data ''role'')
      \<or> (case getProp data ''role'' of Some (JStr s) \<Rightarrow> trim s = [] | _ \<Rightarrow> False))"

definition dateBad :: "dateParse \<Rightarrow> json \<Rightarrow> bool" where
  "dateBad dp data = (\<not> truthy (getProp data ''date'') \<or> dateIsNaN dp (getProp data ''date''))"

definition statusBad :: "json \<Rightarrow> bool" where
  "statusBad data = (\<not> truthy (getProp data ''status'') \<or> \<not> statusIncluded (getProp data ''status''))"

definition validateApplication :: "dateParse \<Rightarrow> json \<Rightarrow> validation" where
  "validateApplication dp data =
     (let errors0 = [];
          errors1 = (if companyBad data then errors0 @ [''Company name is required''] else errors0);
          errors2 = (if roleBad data then errors1 @ [''Role is required''] else errors1);
          errors3 = (if dateBad dp data then errors2 @ [''Valid date is required''] else errors2);
          errors4 = (if statusBad data
                     then errors3 @ [''Status must be one of: Applied, Interview, Offer, Rejected'']
                     else errors3)
      in \<lparr>isValid = (length errors4 = 0), errors = errors4\<rparr>)"

subsection \<open>Responses and routes\<close>

record response =
  code :: nat
  payload :: json

definition validationFailed :: "validation \<Rightarrow> response" where
  "validationFailed v =
     \<lparr>code = 400,
      payload = JObj [(''error'', JStr ''Validation failed''), (''errors'', JArr (map JStr (errors v)))]\<rparr>"

definition notFound :: "string \<Rightarrow> response" where
  "notFound pid = \<lparr>code = 404, payload = JObj [(''error'', JStr ''Application not found''), (''id'', JStr pid)]\<rparr>"

definition serverError :: "string \<Rightarrow> string \<Rightarrow> response" where
  "serverError what msg = \<lparr>code = 500, payload = JObj [(''error'', JStr what), (''message'', JStr msg)]\<rparr>"

text \<open>The comparator of both sorts: \<^verbatim>\<open>new Date(a.date) - new Date(b.date)\<close>.\<close>

definition dateOf :: "dateParse \<Rightarrow> application \<Rightarrow> int option" where
  "dateOf dp a = newDate dp (getProp (JObj a) ''date'')"

definition cmpAsc :: "dateParse \<Rightarrow> application \<Rightarrow> application \<Rightarrow> int option" where
  "cmpAsc dp a b = dateDiff (dateOf dp a) (dateOf dp b)"

definition cmpDesc :: "dateParse \<Rightarrow> application \<Rightarrow> application \<Rightarrow> int option" where
  "cmpDesc dp a b = dateDiff (dateOf dp b) (dateOf dp a)"

text \<open>
  \<^verbatim>\<open>GET /api/applications?status=&sort=\<close>. A query parameter is absent (\<open>None\<close>), a
  string, or an array or object of strings. First the status filter of the route:
\<close>

definition filterByStatus :: "json option \<Rightarrow> application list \<Rightarrow> application list" where
  "filterByStatus qstatus applications =
     (if truthy qstatus \<and> \<not> strictEq qstatus (Some (JStr ''All''))
      then filter (\<lambda>app. strictEq (getProp (JObj app) ''status'') qstatus) applications
      else applications)"

definition listApplications ::
  "dateParse \<Rightarrow> json option \<Rightarrow> json option \<Rightarrow> disk \<Rightarrow> response \<times> disk" where
  "listApplications dp qstatus qsort d =
     (let applications = readData d;
          applications1 = filterByStatus qstatus applications;
          applications2 =
            (if truthy qsort
             then jsSort (if strictEq qsort (Some (JStr ''asc'')) then cmpAsc dp else cmpDesc dp)
                    applications1
             else applications1)
      in (\<lparr>code = 200, payload = JArr (map JObj applications2)\<rparr>, d))"

text \<open>\<^verbatim>\<open>GET /api/applications/:id\<close>.\<close>

definition getApplication :: "string \<Rightarrow> disk \<Rightarrow> response \<times> disk" where
  "getApplication pid d =
     (let applications = readData d
      in case find (\<lambda>a. eqNumber (getProp (JObj a) ''id'') (parseInt pid)) applications of
           None \<Rightarrow> (notFound pid, d)
         | Some appData \<Rightarrow> (\<lparr>code = 200, payload = JObj appData\<rparr>, d))"

text \<open>
  \<^verbatim>\<open>POST /api/applications\<close>; \<open>now\<close> is the value of \<^verbatim>\<open>Date.now()\<close> when the record is
  built.
\<close>

definition createApplication :: "dateParse \<Rightarrow> int \<Rightarrow> json \<Rightarrow> disk \<Rightarrow> response \<times> disk" where
  "createApplication dp now body d =
     (let validation = validateApplication dp body
      in if \<not> isValid validation then (validationFailed validation, d)
         else
           let applications = readData d;
               newApp = spreadOver [(''id'', JNum now)] body;
               applications1 = applications @ [newApp]
           in case writeData applications1 d of
                Inl msg \<Rightarrow> (serverError ''Failed to create application'' msg, d)
              | Inr d1 \<Rightarrow> (\<lparr>code = 201, payload = JObj newApp\<rparr>, d1))"

text \<open>\<^verbatim>\<open>findIndex\<close>: the first index whose element satisfies the test, \<open>None\<close> for \<open>-1\<close>.\<close>

fun findIndex :: "('a \<Rightarrow> bool) \<Rightarrow> 'a list \<Rightarrow> nat option" where
  "findIndex P [] = None"
| "findIndex P (x # xs) =
     (if P x then Some 0 else (case findIndex P xs of None \<Rightarrow> None | Some i \<Rightarrow> Some (Suc i)))"

text \<open>\<^verbatim>\<open>PUT /api/applications/:id\<close>.\<close>

definition updateApplication :: "dateParse \<Rightarrow> string \<Rightarrow> json \<Rightarrow> disk \<Rightarrow> response \<times> disk" where
  "updateApplication dp pid body d =
     (let validation = validateApplication dp body
      in if \<not> isValid validation then (validationFailed validation, d)
         else
           let applications = readData d
           in case findIndex (\<lambda>a. eqNumber (getProp (JObj a) ''id'') (parseInt pid)) applications of
                None \<Rightarrow> (notFound pid, d)
              | Some index \<Rightarrow>
                  let applications1 =
                        applications[index := spreadOver [(''id'', numJson (parseInt pid))] body]
                  in case writeData applications1 d of
                       Inl msg \<Rightarrow> (serverError ''Failed to update application'' msg, d)
                     | Inr d1 \<Rightarrow> (\<lparr>code = 200, payload = JObj (applications1 ! index)\<rparr>, d1))"

text \<open>\<^verbatim>\<open>DELETE /api/applications/:id\<close>.\<close>

definition deleteApplication :: "string \<Rightarrow> disk \<Rightarrow> response \<times> disk" where
  "deleteApplication pid d =
     (let applications = readData d;
          filtered = filter (\<lambda>a. \<not> eqNumber (getProp (JObj a) ''id'') (parseInt pid)) applications
      in if length filtered = length applications then (notFound pid, d)
         else case writeData filtered d of
                Inl msg \<Rightarrow> (serverError ''Failed to delete application'' msg, d)
              | Inr d1 \<Rightarrow>
                  (\<lparr>code = 200,
                    payload = JObj [(''success'', JBool True),
                                    (''message'', JStr ''Application deleted successfully''),
                                    (''id'', numJson (parseInt pid))]\<rparr>, d1))"

subsection \<open>Statistics\<close>

text \<open>
  The offer rate is computed in double precision:
  \<^verbatim>\<open>((offers / total) * 100).toFixed(2) + '%'\<close>. A finite non-negative double is a
  mantissa and a binary exponent; its value is \<open>mant * 2 ^ expo\<close>. Both operations
  round the exact result to the nearest double with a 53 bit mantissa, ties to the even
  mantissa. The results here lie between \<open>2^-32\<close> and 100, far from overflow and from the
  subnormal range, which are not modelled.
\<close>

record double =
  mant :: int
  expo :: int

function bitLength :: "int \<Rightarrow> int" where
  "bitLength n = (if n \<le> 0 then 0 else 1 + bitLength (n div 2))"
  by pat_completeness auto
termination
  by (relation "measure nat") auto

declare bitLength.simps [simp del]

text \<open>The nearest integer to \<open>num / den\<close>, a tie going to the even one.\<close>

definition roundHalfEven :: "int \<Rightarrow> int \<Rightarrow> int" where
  "roundHalfEven num den =
     (let f = num div den; r2 = 2 * (num mod den)
      in if r2 < den then f else if den < r2 then f + 1 else if even f then f else f + 1)"

text \<open>
  The double nearest to the ratio \<open>p / q\<close> (\<open>p \<ge> 0\<close>, \<open>q > 0\<close>): with
  \<open>2 ^ e \<le> p / q < 2 ^ (e + 1)\<close> the mantissa is \<open>p / q / 2 ^ (e - 52)\<close> rounded.
\<close>

definition roundRatio :: "int \<Rightarrow> int \<Rightarrow> double" where
  "roundRatio p q =
     (if p = 0 then \<lparr>mant = 0, expo = 0\<rparr>
      else
        let e0 = bitLength p - bitLength q;
            e = (if (if 0 \<le> e0 then q * 2 ^ nat e0 \<le> p else q \<le> p * 2 ^ nat (- e0)) then e0 else e0 - 1);
            u = e - 52
        in \<lparr>mant = (if 0 \<le> u then roundHalfEven p (q * 2 ^ nat u)
                    else roundHalfEven (p * 2 ^ nat (- u)) q),
            expo = u\<rparr>)"

definition doubleNum :: "double \<Rightarrow> int" where
  "doubleNum x = (if 0 \<le> expo x then mant x * 2 ^ nat (expo x) else mant x)"

definition doubleDen :: "double \<Rightarrow> int" where
  "doubleDen x = (if 0 \<le> expo x then 1 else 2 ^ nat (- expo x))"

text \<open>\<^verbatim>\<open>a / b\<close> for two array lengths (integers, exact as doubles).\<close>

definition divLengths :: "nat \<Rightarrow> nat \<Rightarrow> double" where
  "divLengths a b = roundRatio (int a) (int b)"

text \<open>\<^verbatim>\<open>x * k\<close> for a double \<open>x\<close> and an integer constant \<open>k\<close>.\<close>

definition mulDouble :: "double \<Rightarrow> int \<Rightarrow> double" where
  "mulDouble x k = roundRatio (doubleNum x * k) (doubleDen x)"

text \<open>
  \<^verbatim>\<open>x.toFixed(2)\<close> for \<open>0 \<le> x < 1e21\<close>: \<open>n\<close> is the integer for which \<open>n / 100 - x\<close> is
  closest to zero, the larger one if there are two; its digits are padded with zeros to
  three places and the point is put before the last two.
\<close>

definition toFixed2 :: "double \<Rightarrow> string" where
  "toFixed2 x =
     (let n = (200 * doubleNum x + doubleDen x) div (2 * doubleDen x);
          m = digits n;
          m1 = (if length m \<le> 2 then replicate (3 - length m) CHR ''0'' @ m else m)
      in take (length m1 - 2) m1 @ ''.'' @ drop (length m1 - 2) m1)"

definition countStatus :: "string \<Rightarrow> application list \<Rightarrow> nat" where
  "countStatus s applications =
     length (filter (\<lambda>a. strictEq (getProp (JObj a) ''status'') (Some (JStr s))) applications)"

definition successRate :: "application list \<Rightarrow> string" where
  "successRate applications =
     (if length applications > 0
      then toFixed2 (mulDouble (divLengths (countStatus ''Offer'' applications) (length applications)) 100) @ ''%''
      else ''0%'')"

text \<open>\<^verbatim>\<open>GET /api/stats\<close>.\<close>

definition getStats :: "disk \<Rightarrow> response \<times> disk" where
  "getStats d =
     (let applications = readData d
      in (\<lparr>code = 200,
           payload = JObj [(''total'', JNum (int (length applications))),
                           (''applied'', JNum (int (countStatus ''Applied'' applications))),
                           (''interview'', JNum (int (countStatus ''Interview'' applications))),
                           (''offer'', JNum (int (countStatus ''Offer'' applications))),
                           (''rejected'', JNum (int (countStatus ''Rejected'' applications))),
                           (''successRate'', JStr (successRate applications))]\<rparr>, d))"

section \<open>The client: the derived view\<close>

text \<open>
  The effect that recomputes \<^verbatim>\<open>filteredApps\<close> from \<^verbatim>\<open>apps\<close>, \<^verbatim>\<open>filterStatus\<close>,
  \<^verbatim>\<open>searchTerm\<close> and \<^verbatim>\<open>sortOrder\<close>. Calling \<^verbatim>\<open>toLowerCase\<close> on a company or role that
  is not a string throws a \<^verbatim>\<open>TypeError\<close>.
\<close>

datatype jsError = TypeError

text \<open>
  The search test
  \<^verbatim>\<open>app.company.toLowerCase().includes(t) || app.role.toLowerCase().includes(t)\<close>;
  the role is looked at only when the company does not match.
\<close>

definition matchesSearch :: "string \<Rightarrow> application \<Rightarrow> jsError + bool" where
  "matchesSearch searchTerm app =
     (case getProp (JObj app) ''company'' of
        Some (JStr c) \<Rightarrow>
          if strIncludes (toLowerCase c) (toLowerCase searchTerm) then Inr True
          else (case getProp (JObj app) ''role'' of
                  Some (JStr r) \<Rightarrow> Inr (strIncludes (toLowerCase r) (toLowerCase searchTerm))
                | _ \<Rightarrow> Inl TypeError)
      | _ \<Rightarrow> Inl TypeError)"

text \<open>\<^verbatim>\<open>filter\<close> with a test that may throw: the first exception ends it.\<close>

fun filterThrowing :: "('a \<Rightarrow> jsError + bool) \<Rightarrow> 'a list \<Rightarrow> jsError + 'a list" where
  "filterThrowing P [] = Inr []"
| "filterThrowing P (x # xs) =
     (case P x of
        Inl e \<Rightarrow> Inl e
      | Inr b \<Rightarrow> (case filterThrowing P xs of
                    Inl e \<Rightarrow> Inl e
                  | Inr ys \<Rightarrow> Inr (if b then x # ys else ys)))"

definition deriveView ::
  "dateParse \<Rightarrow> application list \<Rightarrow> string \<Rightarrow> string \<Rightarrow> string \<Rightarrow> jsError + application list" where
  "deriveView dp apps filterStatus searchTerm sortOrder =
     (let filtered = apps;
          filtered1 =
            (if filterStatus \<noteq> ''All''
             then filter (\<lambda>app. strictEq (getProp (JObj app) ''status'') (Some (JStr filterStatus))) filtered
             else filtered)
      in case (if searchTerm \<noteq> [] then filterThrowing (matchesSearch searchTerm) filtered1
               else Inr filtered1) of
           Inl e \<Rightarrow> Inl e
         | Inr filtered2 \<Rightarrow>
             Inr (jsSort (if sortOrder = ''desc'' then cmpDesc dp else cmpAsc dp) filtered2))"

section \<open>A date parser for the examples\<close>

text \<open>
  The examples below need a concrete \<^verbatim>\<open>Date.parse\<close>. This one reads the date-only ISO
  form \<^verbatim>\<open>YYYY-MM-DD\<close>, which the language fixes as midnight UTC of that day, and rejects
  everything else. The general theorems hold for every parser.
\<close>

definition digitsValue :: "string \<Rightarrow> nat option" where
  "digitsValue s =
     (if s \<noteq> [] \<and> list_all (\<lambda>c. digitValue 10 c \<noteq> None) s
      then Some (foldl (\<lambda>acc c. acc * 10 + the (digitValue 10 c)) 0 s) else None)"

definition daysInMonth :: "nat \<Rightarrow> nat \<Rightarrow> nat" where
  "daysInMonth y m =
     (if m = 2 then (if y mod 4 = 0 \<and> (y mod 100 \<noteq> 0 \<or> y mod 400 = 0) then 29 else 28)
      else if m \<in> {4, 6, 9, 11} then 30 else 31)"

text \<open>Days from 1970-01-01 to the given day of the proleptic Gregorian calendar.\<close>

definition daysFromCivil :: "nat \<Rightarrow> nat \<Rightarrow> nat \<Rightarrow> int" where
  "daysFromCivil y m d =
     (let y1 = (if m \<le> 2 then int y - 1 else int y);
          era = y1 div 400;
          yoe = y1 - era * 400;
          mp = (if m > 2 then int m - 3 else int m + 9);
          doy = (153 * mp + 2) div 5 + int d - 1;
          doe = yoe * 365 + yoe div 4 - yoe div 100 + doy
      in era * 146097 + doe - 719468)"

definition isoDateParse :: dateParse where
  "isoDateParse v =
     (case v of
        JStr s \<Rightarrow>
          (if length s = 10 \<and> s ! 4 = CHR ''-'' \<and> s ! 7 = CHR ''-'' then
             (case (digitsValue (take 4 s), digitsValue (take 2 (drop 5 s)), digitsValue (drop 8 s)) of
                (Some y, Some m, Some d) \<Rightarrow>
                  if 1 \<le> m \<and> m \<le> 12 \<and> 1 \<le> d \<and> d \<le> daysInMonth y m
                  then Some (daysFromCivil y m d * 86400000) else None
              | _ \<Rightarrow> None)
           else None)
      | _ \<Rightarrow> None)"

section \<open>The statements of the specification, in its own words\<close>

text \<open>"A non-empty string", as the validation rule is worded.\<close>

definition nonEmptyString :: "json option \<Rightarrow> bool" where
  "nonEmptyString v = (case v of Some (JStr s) \<Rightarrow> s \<noteq> [] | _ \<Rightarrow> False)"

text \<open>A string with something other than white space in it.\<close>

definition nonBlankString :: "json option \<Rightarrow> bool" where
  "nonBlankString v = (case v of Some (JStr s) \<Rightarrow> trim s \<noteq> [] | _ \<Rightarrow> False)"

text \<open>"Parses as a valid date": \<^verbatim>\<open>Date.parse\<close> does not answer \<^verbatim>\<open>NaN\<close>.\<close>

definition dateParses :: "dateParse \<Rightarrow> json option \<Rightarrow> bool" where
  "dateParses dp v = (case v of Some j \<Rightarrow> dp j \<noteq> None | None \<Rightarrow> False)"

text \<open>"One of the four enumerated values".\<close>

definition inEnumeration :: "json option \<Rightarrow> bool" where
  "inEnumeration v =
     (case v of Some (JStr s) \<Rightarrow> s \<in> {''Applied'', ''Interview'', ''Offer'', ''Rejected''} | _ \<Rightarrow> False)"

text \<open>The validation rule as the specification words it.\<close>

definition specValid :: "dateParse \<Rightarrow> json \<Rightarrow> bool" where
  "specValid dp data =
     (nonEmptyString (getProp data ''company'') \<and> nonEmptyString (getProp data ''role'')
      \<and> dateParses dp (getProp data ''date'') \<and> inEnumeration (getProp data ''status''))"

section \<open>Example data\<close>

definition acmeBody :: json where
  "acmeBody = JObj [(''company'', JStr ''Acme''), (''role'', JStr ''SWE''),
                    (''date'', JStr ''2026-02-01''), (''status'', JStr ''Applied'')]"

definition blankCompanyBody :: json where
  "blankCompanyBody = JObj [(''company'', JStr '' ''), (''role'', JStr ''SWE''),
                            (''date'', JStr ''2026-02-01''), (''status'', JStr ''Applied'')]"

definition allBadBody :: json where
  "allBadBody = JObj [(''company'', JStr ''''), (''role'', JNum 7), (''status'', JStr ''applied'')]"

definition noCompanyBody :: json where
  "noCompanyBody = JObj [(''role'', JStr ''SWE''), (''date'', JStr ''2026-02-01''),
                         (''status'', JStr ''Applied'')]"

text \<open>
  The records that \<^verbatim>\<open>initDataFile\<close> writes into a new data file, in its order, with
  their \<^verbatim>\<open>location\<close> and \<^verbatim>\<open>notes\<close> left out.
\<close>

definition googleApp :: application where
  "googleApp = [(''id'', JNum 1), (''company'', JStr ''Google''),
                (''role'', JStr ''Senior Frontend Developer''), (''date'', JStr ''2026-01-10''),
                (''status'', JStr ''Interview'')]"

definition metaApp :: application where
  "metaApp = [(''id'', JNum 2), (''company'', JStr ''Meta''),
              (''role'', JStr ''Full Stack Engineer Intern''), (''date'', JStr ''2026-01-08''),
              (''status'', JStr ''Applied'')]"

definition netflixApp :: application where
  "netflixApp = [(''id'', JNum 3), (''company'', JStr ''Netflix''),
                 (''role'', JStr ''Software Engineer''), (''date'', JStr ''2026-01-05''),
                 (''status'', JStr ''Offer'')]"

definition amazonApp :: application where
  "amazonApp = [(''id'', JNum 4), (''company'', JStr ''Amazon''),
                (''role'', JStr ''SDE Intern''), (''date'', JStr ''2026-01-03''),
                (''status'', JStr ''Rejected'')]"

definition microsoftApp :: application where
  "microsoftApp = [(''id'', JNum 5), (''company'', JStr ''Microsoft''),
                   (''role'', JStr ''Cloud Engineer''), (''date'', JStr ''2026-01-12''),
                   (''status'', JStr ''Applied'')]"

definition sampleData :: "application list" where
  "sampleData = [googleApp, metaApp, netflixApp, amazonApp, microsoftApp]"

definition sampleDisk :: disk where
  "sampleDisk = \<lparr>content = Some sampleData, writeError = None\<rparr>"

text \<open>A data file that cannot be read, and one that cannot be written.\<close>

definition unreadableDisk :: disk where
  "unreadableDisk = \<lparr>content = None, writeError = None\<rparr>"

definition readOnlyDisk :: disk where
  "readOnlyDisk = \<lparr>content = Some sampleData, writeError = Some ''EACCES: permission denied''\<rparr>"

text \<open>A valid payload that carries an \<^verbatim>\<open>id\<close> of its own, that of another record.\<close>

definition foreignIdBody :: json where
  "foreignIdBody = JObj [(''id'', JNum 2), (''company'', JStr ''Acme''), (''role'', JStr ''SWE''),
                         (''date'', JStr ''2026-02-01''), (''status'', JStr ''Offer'')]"

text \<open>A valid payload with a field outside the schema.\<close>

definition extraFieldBody :: json where
  "extraFieldBody = JObj [(''company'', JStr ''Acme''), (''role'', JStr ''SWE''),
                          (''date'', JStr ''2026-02-01''), (''status'', JStr ''Applied''),
                          (''salary'', JNum 100)]"

text \<open>The id of every record of a collection, in order.\<close>

definition idsOf :: "application list \<Rightarrow> json option list" where
  "idsOf apps = map (\<lambda>a. getProp (JObj a) ''id'') apps"

text \<open>A data file whose one record was created from \<open>acmeBody\<close> at clock value 1769904000000.\<close>

definition sameTickDisk :: disk where
  "sameTickDisk =
     \<lparr>content = Some [[(''id'', JNum 1769904000000), (''company'', JStr ''Acme''),
                        (''role'', JStr ''SWE''), (''date'', JStr ''2026-02-01''),
                        (''status'', JStr ''Applied'')]],
      writeError = None\<rparr>"

section \<open>Orderings and the view, as the specification words them\<close>

text \<open>The time value of a record's date, for a record whose date is valid.\<close>

definition timeValue :: "dateParse \<Rightarrow> application \<Rightarrow> int" where
  "timeValue dp a = the (dateOf dp a)"

text \<open>"Ordered by date ascending" and "ordered by date descending (newest first)".\<close>

definition oldestFirst :: "dateParse \<Rightarrow> application list \<Rightarrow> bool" where
  "oldestFirst dp apps = sorted (map (timeValue dp) apps)"

definition newestFirst :: "dateParse \<Rightarrow> application list \<Rightarrow> bool" where
  "newestFirst dp apps = sorted (rev (map (timeValue dp) apps))"

text \<open>
  A record of the data model, as far as the view needs it: company and role are strings
  and the date is a valid one.
\<close>

definition wellFormed :: "dateParse \<Rightarrow> application \<Rightarrow> bool" where
  "wellFormed dp a =
     (isString (getProp (JObj a) ''company'') \<and> isString (getProp (JObj a) ''role'')
      \<and> dateOf dp a \<noteq> None)"

text \<open>"Contains the term (case-insensitive substring match)".\<close>

definition containsTerm :: "json option \<Rightarrow> string \<Rightarrow> bool" where
  "containsTerm v t = (case v of Some (JStr s) \<Rightarrow> sublist (toLowerCase t) (toLowerCase s) | _ \<Rightarrow> False)"

text \<open>
  The four steps of the view derivation: the full collection; the records of the status
  filter unless it is "All"; the records whose company or role contains the search term,
  if there is one; sorted by date, descending or ascending.
\<close>

definition specView ::
  "dateParse \<Rightarrow> application list \<Rightarrow> string \<Rightarrow> string \<Rightarrow> string \<Rightarrow> application list" where
  "specView dp apps filterStatus searchTerm sortOrder =
     (let step1 = apps;
          step2 = (if filterStatus = ''All'' then step1
                   else filter (\<lambda>a. getProp (JObj a) ''status'' = Some (JStr filterStatus)) step1);
          step3 = (if searchTerm = [] then step2
                   else filter (\<lambda>a. containsTerm (getProp (JObj a) ''company'') searchTerm
                                    \<or> containsTerm (getProp (JObj a) ''role'') searchTerm) step2)
      in if sortOrder = ''desc'' then sort_key (\<lambda>a. - timeValue dp a) step3
         else sort_key (timeValue dp) step3)"

text \<open>"The count of records per status".\<close>

definition statusCount :: "string \<Rightarrow> application list \<Rightarrow> nat" where
  "statusCount s apps = length (filter (\<lambda>a. getProp (JObj a) ''status'' = Some (JStr s)) apps)"

text \<open>The real number that a double stands for.\<close>

definition doubleVal :: "double \<Rightarrow> real" where
  "doubleVal x = real_of_int (doubleNum x) / real_of_int (doubleDen x)"

text \<open>
  A percentage given in hundredths, printed with two decimals and the percent sign:
  \<open>percentText 2000 = ''20.00%''\<close>.
\<close>

definition percentText :: "int \<Rightarrow> string" where
  "percentText n =
     digits (n div 100) @ ''.'' @ [char_of (48 + n div 10 mod 10), char_of (48 + n mod 10)] @ ''%''"

section \<open>Properties of the model\<close>

subsection \<open>Object literals and spread\<close>

lemma map_of_setProp: "map_of (setProp k v ps) = (map_of ps)(k \<mapsto> v)"
  by (induction ps) auto

lemma keys_setProp: "set (map fst (setProp k v ps)) = insert k (set (map fst ps))"
  by (induction ps) force+

lemma distinct_setProp: "distinct (map fst ps) \<Longrightarrow> distinct (map fst (setProp k v ps))"
proof (induction ps)
  case Nil
  then show ?case by simp
next
  case (Cons p ps)
  obtain k' v' where p: "p = (k', v')" by (cases p)
  show ?case
  proof (cases "k = k'")
    case True
    with Cons.prems p show ?thesis by simp
  next
    case False
    from Cons.prems p have "k' \<notin> set (map fst ps)" and "distinct (map fst ps)" by auto
    with False Cons.IH p show ?thesis
      using keys_setProp [of k v ps] by auto
  qed
qed

lemma map_of_fold_setProp:
  "distinct (map fst kvs) \<Longrightarrow>
   map_of (fold (\<lambda>(k, v) acc. setProp k v acc) kvs base) = map_of base ++ map_of kvs"
proof (induction kvs arbitrary: base)
  case Nil
  then show ?case by simp
next
  case (Cons kv kvs)
  obtain k v where kv: "kv = (k, v)" by (cases kv)
  from Cons.prems kv have notin: "k \<notin> set (map fst kvs)" and dist: "distinct (map fst kvs)"
    by auto
  have none: "map_of kvs k = None" using notin by (simp add: map_of_eq_None_iff)
  have "fold (\<lambda>(k, v) acc. setProp k v acc) (kv # kvs) base
          = fold (\<lambda>(k, v) acc. setProp k v acc) kvs (setProp k v base)"
    using kv by simp
  then have "map_of (fold (\<lambda>(k, v) acc. setProp k v acc) (kv # kvs) base)
          = map_of (setProp k v base) ++ map_of kvs"
    using Cons.IH [OF dist, of "setProp k v base"] by (simp only:)
  also have "\<dots> = (map_of base)(k \<mapsto> v) ++ map_of kvs"
    by (simp only: map_of_setProp)
  also have "\<dots> = map_of base ++ map_of (kv # kvs)"
    using none kv by (auto simp: map_add_def fun_eq_iff split: option.splits)
  finally show ?case .
qed

lemma keys_fold_setProp:
  "set (map fst (fold (\<lambda>(k, v) acc. setProp k v acc) kvs base))
     = set (map fst base) \<union> set (map fst kvs)"
proof (induction kvs arbitrary: base)
  case Nil
  then show ?case by simp
next
  case (Cons kv kvs)
  obtain k v where kv: "kv = (k, v)" by (cases kv)
  show ?case using Cons.IH [of "setProp k v base"] kv keys_setProp [of k v base] by auto
qed

lemma map_of_fold_setProp_other:
  "k \<notin> set (map fst kvs) \<Longrightarrow>
   map_of (fold (\<lambda>(k, v) acc. setProp k v acc) kvs base) k = map_of base k"
proof (induction kvs arbitrary: base)
  case Nil
  then show ?case by simp
next
  case (Cons kv kvs)
  obtain k' v' where kv: "kv = (k', v')" by (cases kv)
  with Cons.prems have "k \<noteq> k'" and "k \<notin> set (map fst kvs)" by auto
  with Cons.IH [of "setProp k' v' base"] kv show ?case by (simp add: map_of_setProp)
qed

subsection \<open>Validation\<close>

lemma trim_Nil: "trim [] = []"
  by (simp add: trim_def)

lemma trim_nonempty: "trim s \<noteq> [] \<Longrightarrow> s \<noteq> []"
  by (auto simp: trim_def)

lemma stringCheck_iff:
  "(\<not> truthy v \<or> \<not> isString v \<or> (case v of Some (JStr s) \<Rightarrow> trim s = [] | _ \<Rightarrow> False))
     = (\<not> nonBlankString v)"
  by (cases v rule: truthy.cases) (auto simp: nonBlankString_def trim_Nil)

lemma companyBad_iff: "companyBad data = (\<not> nonBlankString (getProp data ''company''))"
  unfolding companyBad_def by (rule stringCheck_iff)

lemma roleBad_iff: "roleBad data = (\<not> nonBlankString (getProp data ''role''))"
  unfolding roleBad_def by (rule stringCheck_iff)

lemma dateBad_iff:
  "dateBad dp data = (\<not> (truthy (getProp data ''date'') \<and> dateParses dp (getProp data ''date'')))"
  by (cases "getProp data ''date''") (auto simp: dateBad_def dateIsNaN_def dateParses_def)

lemma statusIncluded_iff: "statusIncluded v = inEnumeration v"
  by (cases v rule: truthy.cases) (auto simp: statusIncluded_def inEnumeration_def validStatuses_def)

lemma inEnumeration_truthy: "inEnumeration v \<Longrightarrow> truthy v"
  by (cases v rule: truthy.cases) (auto simp: inEnumeration_def)

lemma statusBad_iff: "statusBad data = (\<not> inEnumeration (getProp data ''status''))"
  using inEnumeration_truthy [of "getProp data ''status''"]
  by (auto simp: statusBad_def statusIncluded_iff)

lemma errors_validateApplication:
  "errors (validateApplication dp data) =
     (if companyBad data then [''Company name is required''] else []) @
     (if roleBad data then [''Role is required''] else []) @
     (if dateBad dp data then [''Valid date is required''] else []) @
     (if statusBad data then [''Status must be one of: Applied, Interview, Offer, Rejected''] else [])"
  by (simp add: validateApplication_def Let_def)

lemma isValid_validateApplication:
  "isValid (validateApplication dp data) = (errors (validateApplication dp data) = [])"
  by (simp add: validateApplication_def Let_def)

lemma isValid_iff:
  "isValid (validateApplication dp data) =
     (\<not> companyBad data \<and> \<not> roleBad data \<and> \<not> dateBad dp data \<and> \<not> statusBad data)"
  by (simp add: isValid_validateApplication errors_validateApplication)

lemma isoDateParse_feb1: "isoDateParse (JStr ''2026-02-01'') = Some 1769904000000"
  by code_simp

lemma createApplication_invalid:
  "\<not> isValid (validateApplication dp body) \<Longrightarrow>
   createApplication dp now body d = (validationFailed (validateApplication dp body), d)"
  by (simp add: createApplication_def Let_def)

lemma updateApplication_invalid:
  "\<not> isValid (validateApplication dp body) \<Longrightarrow>
   updateApplication dp pid body d = (validationFailed (validateApplication dp body), d)"
  by (simp add: updateApplication_def Let_def)

text \<open>
  C4, as the code has it. Validation makes four checks and collects a message for each
  one that fails, in this order: the company is a string with something other than white
  space in it, so is the role, the date is truthy and \<^verbatim>\<open>Date.parse\<close> accepts it, the
  status is one of the four enumerated strings. The result is valid exactly when no
  message was collected, and both Create and Update answer an invalid body with the
  collected messages and leave the data file alone.
\<close>

theorem validateApplication_collects_all:
  "errors (validateApplication dp data) =
     (if nonBlankString (getProp data ''company'') then [] else [''Company name is required'']) @
     (if nonBlankString (getProp data ''role'') then [] else [''Role is required'']) @
     (if truthy (getProp data ''date'') \<and> dateParses dp (getProp data ''date'') then []
      else [''Valid date is required'']) @
     (if inEnumeration (getProp data ''status'') then []
      else [''Status must be one of: Applied, Interview, Offer, Rejected''])
   \<and> isValid (validateApplication dp data) = (errors (validateApplication dp data) = [])
   \<and> (\<not> isValid (validateApplication dp data) \<longrightarrow>
        createApplication dp now data d = (validationFailed (validateApplication dp data), d)
        \<and> updateApplication dp pid data d = (validationFailed (validateApplication dp data), d))"
  by (simp add: errors_validateApplication isValid_validateApplication companyBad_iff roleBad_iff
      dateBad_iff statusBad_iff createApplication_invalid updateApplication_invalid)

theorem validateApplication_collects_all_witness:
  "errors (validateApplication isoDateParse allBadBody) =
     [''Company name is required'', ''Role is required'', ''Valid date is required'',
      ''Status must be one of: Applied, Interview, Offer, Rejected'']
   \<and> \<not> isValid (validateApplication isoDateParse allBadBody)
   \<and> createApplication isoDateParse 1769904000000 allBadBody sampleDisk
       = (validationFailed (validateApplication isoDateParse allBadBody), sampleDisk)
   \<and> updateApplication isoDateParse ''1'' allBadBody sampleDisk
       = (validationFailed (validateApplication isoDateParse allBadBody), sampleDisk)"
proof -
  have bad: "errors (validateApplication isoDateParse allBadBody) =
     [''Company name is required'', ''Role is required'', ''Valid date is required'',
      ''Status must be one of: Applied, Interview, Offer, Rejected'']"
    using validateApplication_collects_all [of isoDateParse allBadBody]
    by (simp add: allBadBody_def nonBlankString_def dateParses_def inEnumeration_def trim_Nil)
  with validateApplication_collects_all [of isoDateParse allBadBody 1769904000000 sampleDisk "''1''"]
  show ?thesis by simp
qed

text \<open>
  C4 as the specification words it ("company is a non-empty string") fails: a company
  of one blank is a non-empty string, and with the other three fields in order the
  request is still rejected, because the code trims the string before looking at it.
\<close>

theorem blank_company_counterexample:
  "specValid isoDateParse blankCompanyBody
   \<and> \<not> isValid (validateApplication isoDateParse blankCompanyBody)"
  by (simp add: specValid_def blankCompanyBody_def nonEmptyString_def dateParses_def inEnumeration_def
      isoDateParse_feb1 isValid_iff companyBad_def trim_def isWhiteSpace_def)

subsection \<open>Create and update\<close>

lemma valid_body_is_object:
  assumes "isValid (validateApplication dp body)"
  shows "\<exists>kvs. body = JObj kvs"
proof -
  from assms have "truthy (getProp body ''company'')"
    by (simp add: isValid_iff companyBad_def)
  then show ?thesis by (cases body) auto
qed

lemma map_of_spreadOver:
  assumes "distinct (map fst kvs)" and "map_of kvs k = Some v"
  shows "map_of (spreadOver base (JObj kvs)) k = Some v"
  using assms by (simp add: spreadOver_def map_of_fold_setProp)

lemma map_of_spreadOver_other:
  assumes "map_of kvs k = None"
  shows "map_of (spreadOver base (JObj kvs)) k = map_of base k"
proof -
  from assms have "k \<notin> set (map fst kvs)"
    by (simp add: map_of_eq_None_iff)
  then show ?thesis
    unfolding spreadOver_def ownProps.simps by (rule map_of_fold_setProp_other)
qed

lemma keys_spreadOver:
  "set (map fst (spreadOver base body)) = set (map fst base) \<union> set (map fst (ownProps body))"
  unfolding spreadOver_def by (rule keys_fold_setProp)

lemma findIndex_None: "(findIndex P xs = None) = (\<forall>x \<in> set xs. \<not> P x)"
  by (induction xs) (auto split: option.splits)

lemma findIndex_Some:
  "findIndex P xs = Some i \<Longrightarrow> i < length xs \<and> P (xs ! i) \<and> (\<forall>j < i. \<not> P (xs ! j))"
proof (induction xs arbitrary: i)
  case Nil
  then show ?case by simp
next
  case (Cons x xs)
  show ?case
  proof (cases "P x")
    case True
    with Cons.prems show ?thesis by simp
  next
    case False
    with Cons.prems obtain i' where i': "findIndex P xs = Some i'" "i = Suc i'"
      by (auto split: option.splits)
    from Cons.IH [OF i'(1)] False i'(2) show ?thesis
      by (auto simp: less_Suc_eq_0_disj)
  qed
qed

lemma createApplication_written:
  "isValid (validateApplication dp body) \<Longrightarrow> writeError d = None \<Longrightarrow>
   createApplication dp now body d =
     (\<lparr>code = 201, payload = JObj (spreadOver [(''id'', JNum now)] body)\<rparr>,
      d\<lparr>content := Some (readData d @ [spreadOver [(''id'', JNum now)] body])\<rparr>)"
  by (simp add: createApplication_def Let_def writeData_def)

lemma updateApplication_absent:
  "isValid (validateApplication dp body) \<Longrightarrow>
   findIndex (\<lambda>a. eqNumber (getProp (JObj a) ''id'') (parseInt pid)) (readData d) = None \<Longrightarrow>
   updateApplication dp pid body d = (notFound pid, d)"
  by (simp add: updateApplication_def Let_def)

lemma updateApplication_written:
  assumes "isValid (validateApplication dp body)"
    and "findIndex (\<lambda>a. eqNumber (getProp (JObj a) ''id'') (parseInt pid)) (readData d) = Some i"
    and "writeError d = None"
  shows "updateApplication dp pid body d =
     (\<lparr>code = 200, payload = JObj (spreadOver [(''id'', numJson (parseInt pid))] body)\<rparr>,
      d\<lparr>content := Some ((readData d)[i := spreadOver [(''id'', numJson (parseInt pid))] body])\<rparr>)"
proof -
  from findIndex_Some [OF assms(2)] have "i < length (readData d)" by simp
  with assms show ?thesis
    by (simp add: updateApplication_def Let_def writeData_def)
qed

lemma parseInt_1: "parseInt ''1'' = Some 1"
  by code_simp

lemma parseInt_99: "parseInt ''99'' = Some 99"
  by code_simp

lemma acmeBody_valid: "isValid (validateApplication isoDateParse acmeBody)"
  by (simp add: isValid_iff companyBad_def roleBad_def dateBad_def statusBad_def statusIncluded_def
      validStatuses_def dateIsNaN_def acmeBody_def isoDateParse_feb1 trim_def isWhiteSpace_def)

lemma foreignIdBody_valid: "isValid (validateApplication isoDateParse foreignIdBody)"
  by (simp add: isValid_iff companyBad_def roleBad_def dateBad_def statusBad_def statusIncluded_def
      validStatuses_def dateIsNaN_def foreignIdBody_def isoDateParse_feb1 trim_def isWhiteSpace_def)

lemma extraFieldBody_valid: "isValid (validateApplication isoDateParse extraFieldBody)"
  by (simp add: isValid_iff companyBad_def roleBad_def dateBad_def statusBad_def statusIncluded_def
      validStatuses_def dateIsNaN_def extraFieldBody_def isoDateParse_feb1 trim_def isWhiteSpace_def)

lemmas sample_defs = sampleDisk_def sampleData_def googleApp_def metaApp_def netflixApp_def
  amazonApp_def microsoftApp_def readData_def

text \<open>
  C5. A request body whose company is missing or the empty string is answered by 400,
  the error list of the answer holds the company message, and the data file is what it
  was.
\<close>

theorem createApplication_company_missing:
  assumes "getProp body ''company'' = None \<or> getProp body ''company'' = Some (JStr [])"
  shows "code (fst (createApplication dp now body d)) = 400
    \<and> getProp (payload (fst (createApplication dp now body d))) ''errors''
        = Some (JArr (map JStr (errors (validateApplication dp body))))
    \<and> ''Company name is required'' \<in> set (errors (validateApplication dp body))
    \<and> snd (createApplication dp now body d) = d"
proof -
  from assms have bad: "companyBad body"
    by (auto simp: companyBad_def)
  then have "\<not> isValid (validateApplication dp body)"
    by (simp add: isValid_iff)
  then have "createApplication dp now body d = (validationFailed (validateApplication dp body), d)"
    by (rule createApplication_invalid)
  with bad show ?thesis
    by (simp add: validationFailed_def errors_validateApplication)
qed

theorem createApplication_company_missing_witness:
  "code (fst (createApplication isoDateParse 1769904000000 noCompanyBody sampleDisk)) = 400
   \<and> getProp (payload (fst (createApplication isoDateParse 1769904000000 noCompanyBody sampleDisk)))
        ''errors'' = Some (JArr [JStr ''Company name is required''])
   \<and> snd (createApplication isoDateParse 1769904000000 noCompanyBody sampleDisk) = sampleDisk"
proof -
  have missing: "getProp noCompanyBody ''company'' = None \<or> getProp noCompanyBody ''company'' = Some (JStr [])"
    by (simp add: noCompanyBody_def)
  have "errors (validateApplication isoDateParse noCompanyBody) = [''Company name is required'']"
    by (simp add: errors_validateApplication companyBad_def roleBad_def dateBad_def statusBad_def
        statusIncluded_def validStatuses_def dateIsNaN_def noCompanyBody_def isoDateParse_feb1
        trim_def isWhiteSpace_def)
  with createApplication_company_missing [OF missing, of isoDateParse 1769904000000 sampleDisk]
  show ?thesis by simp
qed

text \<open>
  C6. An update with a valid payload for an id that no stored record has is answered by
  404, and the data file is what it was.
\<close>

theorem updateApplication_absent_id:
  assumes "isValid (validateApplication dp body)"
    and "\<forall>a \<in> set (readData d). \<not> eqNumber (getProp (JObj a) ''id'') (parseInt pid)"
  shows "code (fst (updateApplication dp pid body d)) = 404
    \<and> snd (updateApplication dp pid body d) = d"
proof -
  from assms(2)
  have "findIndex (\<lambda>a. eqNumber (getProp (JObj a) ''id'') (parseInt pid)) (readData d) = None"
    by (simp add: findIndex_None)
  with assms(1) have "updateApplication dp pid body d = (notFound pid, d)"
    by (rule updateApplication_absent)
  then show ?thesis by (simp add: notFound_def)
qed

theorem updateApplication_absent_id_witness:
  "code (fst (updateApplication isoDateParse ''99'' acmeBody sampleDisk)) = 404
   \<and> snd (updateApplication isoDateParse ''99'' acmeBody sampleDisk) = sampleDisk"
proof -
  have absent: "\<forall>a \<in> set (readData sampleDisk). \<not> eqNumber (getProp (JObj a) ''id'') (parseInt ''99'')"
    by (simp add: sample_defs parseInt_99)
  from updateApplication_absent_id [OF acmeBody_valid absent] show ?thesis .
qed

text \<open>
  C1 fails on the code. The record that replaces the stored one is
  \<^verbatim>\<open>{ id: parseInt(req.params.id), ...req.body }\<close>: the payload is spread after the
  \<^verbatim>\<open>id\<close>, so an \<^verbatim>\<open>id\<close> of the payload replaces the path id. Updating record 1 of the
  sample data with a payload that carries id 2 answers 200 with id 2, and leaves two
  records with id 2 and none with id 1 in the file.
\<close>

theorem updateApplication_payload_id_wins:
  "code (fst (updateApplication isoDateParse ''1'' foreignIdBody sampleDisk)) = 200
   \<and> getProp (payload (fst (updateApplication isoDateParse ''1'' foreignIdBody sampleDisk))) ''id''
       = Some (JNum 2)
   \<and> idsOf (readData (snd (updateApplication isoDateParse ''1'' foreignIdBody sampleDisk)))
       = [Some (JNum 2), Some (JNum 2), Some (JNum 3), Some (JNum 4), Some (JNum 5)]"
proof -
  have found: "findIndex (\<lambda>a. eqNumber (getProp (JObj a) ''id'') (parseInt ''1'')) (readData sampleDisk) = Some 0"
    by (simp add: sample_defs parseInt_1)
  have "writeError sampleDisk = None"
    by (simp add: sampleDisk_def)
  from updateApplication_written [OF foreignIdBody_valid found this]
  show ?thesis
    by (simp add: parseInt_1 spreadOver_def foreignIdBody_def idsOf_def sample_defs)
qed

text \<open>
  C2 fails on the code when the clock gives a value that is already the id of a stored
  record: the id is \<^verbatim>\<open>Date.now()\<close>, and nothing compares it with the ids in the file.
  A second create in the millisecond of the first is answered by 201 with the id of the
  first.
\<close>

theorem createApplication_same_tick_counterexample:
  "code (fst (createApplication isoDateParse 1769904000000 acmeBody sameTickDisk)) = 201
   \<and> getProp (payload (fst (createApplication isoDateParse 1769904000000 acmeBody sameTickDisk))) ''id''
       \<in> set (idsOf (readData sameTickDisk))"
proof -
  have "writeError sameTickDisk = None"
    by (simp add: sameTickDisk_def)
  from createApplication_written [OF acmeBody_valid this, of 1769904000000]
  show ?thesis
    by (simp add: idsOf_def readData_def sameTickDisk_def spreadOver_def acmeBody_def)
qed

text \<open>
  C2, as the code has it. For a valid request body without an \<^verbatim>\<open>id\<close> field and a data
  file that can be written, create answers 201 with the new record, whose id is the
  value of the clock, and the file holds the records it held followed by the new one.
  The new id differs from every stored id exactly when the clock value does.
\<close>

theorem createApplication_appends_clock_id:
  assumes "isValid (validateApplication dp body)"
    and "getProp body ''id'' = None"
    and "writeError d = None"
  shows "\<exists>newApp.
      createApplication dp now body d
        = (\<lparr>code = 201, payload = JObj newApp\<rparr>, d\<lparr>content := Some (readData d @ [newApp])\<rparr>)
      \<and> getProp (JObj newApp) ''id'' = Some (JNum now)
      \<and> (getProp (JObj newApp) ''id'' \<in> set (idsOf (readData d))
           = (Some (JNum now) \<in> set (idsOf (readData d))))"
proof -
  from valid_body_is_object [OF assms(1)] obtain kvs where kvs: "body = JObj kvs" by blast
  with assms(2) have "map_of kvs ''id'' = None"
    by simp
  then have id: "getProp (JObj (spreadOver [(''id'', JNum now)] body)) ''id'' = Some (JNum now)"
    using kvs by (simp add: map_of_spreadOver_other)
  show ?thesis
    using createApplication_written [OF assms(1) assms(3), of now] id by simp
qed

theorem createApplication_appends_clock_id_witness:
  "createApplication isoDateParse 1769904000000 acmeBody sampleDisk
     = (\<lparr>code = 201, payload = JObj ((''id'', JNum 1769904000000) # ownProps acmeBody)\<rparr>,
        \<lparr>content = Some (sampleData @ [(''id'', JNum 1769904000000) # ownProps acmeBody]),
         writeError = None\<rparr>)
   \<and> Some (JNum 1769904000000) \<notin> set (idsOf sampleData)"
proof -
  have noId: "getProp acmeBody ''id'' = None"
    by (simp add: acmeBody_def)
  have writable: "writeError sampleDisk = None"
    by (simp add: sampleDisk_def)
  have spread: "spreadOver [(''id'', JNum 1769904000000)] acmeBody
      = (''id'', JNum 1769904000000) # ownProps acmeBody"
    by (simp add: spreadOver_def acmeBody_def)
  from createApplication_appends_clock_id [OF acmeBody_valid noId writable, of 1769904000000]
  obtain newApp where
    "createApplication isoDateParse 1769904000000 acmeBody sampleDisk
       = (\<lparr>code = 201, payload = JObj newApp\<rparr>,
          sampleDisk\<lparr>content := Some (readData sampleDisk @ [newApp])\<rparr>)"
    by blast
  moreover have "newApp = (''id'', JNum 1769904000000) # ownProps acmeBody"
    using calculation createApplication_written [OF acmeBody_valid writable, of 1769904000000] spread
    by simp
  moreover have "Some (JNum 1769904000000) \<notin> set (idsOf sampleData)"
    by (simp add: idsOf_def sampleData_def googleApp_def metaApp_def netflixApp_def amazonApp_def
        microsoftApp_def)
  ultimately show ?thesis
    by (simp add: sampleDisk_def readData_def)
qed

text \<open>
  C10. The stored record is the spread of the request body over the \<^verbatim>\<open>id\<close>, with no
  list of admitted fields: for a valid payload (an object, with distinct keys) and a data
  file that can be written, every field of the payload is in the record that create
  appends, and in the record that update puts at the index of the path id, with the
  value the payload gave it, and the keys of the stored record are \<^verbatim>\<open>id\<close> and the keys
  of the payload.
\<close>

theorem payload_stored_verbatim:
  assumes "isValid (validateApplication dp body)"
    and "distinct (map fst (ownProps body))"
    and "writeError d = None"
  shows "(\<exists>newApp.
        content (snd (createApplication dp now body d)) = Some (readData d @ [newApp])
        \<and> (\<forall>k v. getProp body k = Some v \<longrightarrow> getProp (JObj newApp) k = Some v)
        \<and> set (map fst newApp) = insert ''id'' (set (map fst (ownProps body))))
    \<and> (\<forall>i. findIndex (\<lambda>a. eqNumber (getProp (JObj a) ''id'') (parseInt pid)) (readData d) = Some i
          \<longrightarrow> (\<exists>newApp.
                content (snd (updateApplication dp pid body d)) = Some ((readData d)[i := newApp])
                \<and> (\<forall>k v. getProp body k = Some v \<longrightarrow> getProp (JObj newApp) k = Some v)
                \<and> set (map fst newApp) = insert ''id'' (set (map fst (ownProps body)))))"
proof -
  from valid_body_is_object [OF assms(1)] obtain kvs where kvs: "body = JObj kvs" by blast
  with assms(2) have dist: "distinct (map fst kvs)" by simp
  have fields: "\<forall>k v. getProp body k = Some v \<longrightarrow> getProp (JObj (spreadOver base body)) k = Some v"
    for base
    using kvs dist by (simp add: map_of_spreadOver)
  have keys: "set (map fst (spreadOver [(''id'', j)] body)) = insert ''id'' (set (map fst (ownProps body)))"
    for j
    using keys_spreadOver [of "[(''id'', j)]" body] by simp
  have create: "\<exists>newApp.
        content (snd (createApplication dp now body d)) = Some (readData d @ [newApp])
        \<and> (\<forall>k v. getProp body k = Some v \<longrightarrow> getProp (JObj newApp) k = Some v)
        \<and> set (map fst newApp) = insert ''id'' (set (map fst (ownProps body)))"
    using createApplication_written [OF assms(1) assms(3), of now] fields keys
    by (intro exI [of _ "spreadOver [(''id'', JNum now)] body"]) simp
  have update: "\<exists>newApp.
        content (snd (updateApplication dp pid body d)) = Some ((readData d)[i := newApp])
        \<and> (\<forall>k v. getProp body k = Some v \<longrightarrow> getProp (JObj newApp) k = Some v)
        \<and> set (map fst newApp) = insert ''id'' (set (map fst (ownProps body)))"
    if "findIndex (\<lambda>a. eqNumber (getProp (JObj a) ''id'') (parseInt pid)) (readData d) = Some i"
    for i
    using updateApplication_written [OF assms(1) that assms(3)] fields keys
    by (intro exI [of _ "spreadOver [(''id'', numJson (parseInt pid))] body"]) simp
  from create update show ?thesis by blast
qed

theorem payload_stored_verbatim_witness:
  "content (snd (createApplication isoDateParse 1769904000000 extraFieldBody sampleDisk))
     = Some (sampleData @ [(''id'', JNum 1769904000000) # ownProps extraFieldBody])
   \<and> content (snd (updateApplication isoDateParse ''1'' extraFieldBody sampleDisk))
     = Some (sampleData[0 := (''id'', JNum 1) # ownProps extraFieldBody])
   \<and> getProp (JObj ((''id'', JNum 1) # ownProps extraFieldBody)) ''salary'' = Some (JNum 100)"
proof -
  have dist: "distinct (map fst (ownProps extraFieldBody))"
    by (simp add: extraFieldBody_def)
  have writable: "writeError sampleDisk = None"
    by (simp add: sampleDisk_def)
  have found: "findIndex (\<lambda>a. eqNumber (getProp (JObj a) ''id'') (parseInt ''1'')) (readData sampleDisk) = Some 0"
    by (simp add: sample_defs parseInt_1)
  have spread: "spreadOver [(''id'', j)] extraFieldBody = (''id'', j) # ownProps extraFieldBody" for j
    by (simp add: spreadOver_def extraFieldBody_def)
  note stored = payload_stored_verbatim [OF extraFieldBody_valid dist writable, of 1769904000000 "''1''"]
  have "content (snd (createApplication isoDateParse 1769904000000 extraFieldBody sampleDisk))
     = Some (sampleData @ [(''id'', JNum 1769904000000) # ownProps extraFieldBody])"
    using stored createApplication_written [OF extraFieldBody_valid writable, of 1769904000000] spread
    by (simp add: sampleDisk_def readData_def)
  moreover have "content (snd (updateApplication isoDateParse ''1'' extraFieldBody sampleDisk))
     = Some (sampleData[0 := (''id'', JNum 1) # ownProps extraFieldBody])"
    using updateApplication_written [OF extraFieldBody_valid found writable] spread
    by (simp add: sampleDisk_def readData_def parseInt_1)
  moreover have "getProp (JObj ((''id'', JNum 1) # ownProps extraFieldBody)) ''salary'' = Some (JNum 100)"
    by (simp add: extraFieldBody_def)
  ultimately show ?thesis by simp
qed

subsection \<open>Sorting by date\<close>

lemma sortInsert_cmpAsc:
  assumes "dateOf dp x \<noteq> None" and "\<forall>y \<in> set ys. dateOf dp y \<noteq> None"
  shows "sortInsert (cmpAsc dp) x ys = insort_key (timeValue dp) x ys"
  using assms by (induction ys) (auto simp: cmpAsc_def timeValue_def)

lemma sortInsert_cmpDesc:
  assumes "dateOf dp x \<noteq> None" and "\<forall>y \<in> set ys. dateOf dp y \<noteq> None"
  shows "sortInsert (cmpDesc dp) x ys = insort_key (\<lambda>a. - timeValue dp a) x ys"
  using assms by (induction ys) (auto simp: cmpDesc_def timeValue_def)

lemma jsSort_cmpAsc:
  assumes "\<forall>a \<in> set xs. dateOf dp a \<noteq> None"
  shows "jsSort (cmpAsc dp) xs = sort_key (timeValue dp) xs"
  using assms
proof (induction xs)
  case Nil
  then show ?case by (simp add: jsSort_def)
next
  case (Cons x xs)
  then have IH: "foldr (sortInsert (cmpAsc dp)) xs [] = sort_key (timeValue dp) xs"
    by (simp add: jsSort_def)
  from Cons.prems have "dateOf dp x \<noteq> None"
    and "\<forall>y \<in> set (sort_key (timeValue dp) xs). dateOf dp y \<noteq> None"
    by simp_all
  then show ?case
    by (simp add: jsSort_def IH sortInsert_cmpAsc)
qed

lemma jsSort_cmpDesc:
  assumes "\<forall>a \<in> set xs. dateOf dp a \<noteq> None"
  shows "jsSort (cmpDesc dp) xs = sort_key (\<lambda>a. - timeValue dp a) xs"
  using assms
proof (induction xs)
  case Nil
  then show ?case by (simp add: jsSort_def)
next
  case (Cons x xs)
  then have IH: "foldr (sortInsert (cmpDesc dp)) xs [] = sort_key (\<lambda>a. - timeValue dp a) xs"
    by (simp add: jsSort_def)
  from Cons.prems have "dateOf dp x \<noteq> None"
    and "\<forall>y \<in> set (sort_key (\<lambda>a. - timeValue dp a) xs). dateOf dp y \<noteq> None"
    by simp_all
  then show ?case
    by (simp add: jsSort_def IH sortInsert_cmpDesc)
qed

lemma sorted_uminus_rev: "sorted (map uminus (xs :: int list)) = sorted (rev xs)"
  by (induction xs) (auto simp: sorted_append)

lemma oldestFirst_sort_key: "oldestFirst dp (sort_key (timeValue dp) xs)"
  by (simp add: oldestFirst_def)

lemma newestFirst_sort_key: "newestFirst dp (sort_key (\<lambda>a. - timeValue dp a) xs)"
proof -
  have "sorted (map (\<lambda>a. - timeValue dp a) (sort_key (\<lambda>a. - timeValue dp a) xs))"
    by (rule sorted_sort_key)
  then have "sorted (map uminus (map (timeValue dp) (sort_key (\<lambda>a. - timeValue dp a) xs)))"
    by (simp add: comp_def)
  then show ?thesis
    by (simp only: newestFirst_def sorted_uminus_rev)
qed

lemma filterByStatus_subset: "set (filterByStatus q xs) \<subseteq> set xs"
  by (auto simp: filterByStatus_def)

lemma sample_times:
  "map (timeValue isoDateParse) sampleData
     = [1768003200000, 1767830400000, 1767571200000, 1767398400000, 1768176000000]"
  by code_simp

lemma sample_dates_valid: "\<forall>a \<in> set sampleData. dateOf isoDateParse a \<noteq> None"
  by code_simp

text \<open>
  C3 fails on the code for the default: with no \<^verbatim>\<open>sort\<close> parameter the route does not
  sort at all and answers in file order. On the sample data the newest record
  (2026-01-12) is the last of the answer.
\<close>

theorem listApplications_default_counterexample:
  "payload (fst (listApplications isoDateParse None None sampleDisk)) = JArr (map JObj sampleData)
   \<and> \<not> newestFirst isoDateParse sampleData"
  by (simp add: listApplications_def filterByStatus_def readData_def sampleDisk_def
      newestFirst_def sample_times)

text \<open>
  C3, as the code has it. List never changes the data file. With no \<^verbatim>\<open>sort\<close>
  parameter (or an empty one) it answers with the records of the status filter in file
  order. With a \<^verbatim>\<open>sort\<close> parameter, and valid dates in the file, the answer is a
  rearrangement of those records, ordered by date ascending for \<^verbatim>\<open>asc\<close> and by date
  descending for every other value.
\<close>

theorem listApplications_order:
  "snd (listApplications dp qstatus qsort d) = d
   \<and> (\<not> truthy qsort \<longrightarrow>
        payload (fst (listApplications dp qstatus qsort d))
          = JArr (map JObj (filterByStatus qstatus (readData d))))
   \<and> (truthy qsort \<and> (\<forall>a \<in> set (readData d). dateOf dp a \<noteq> None) \<longrightarrow>
        (\<exists>view. payload (fst (listApplications dp qstatus qsort d)) = JArr (map JObj view)
           \<and> mset view = mset (filterByStatus qstatus (readData d))
           \<and> (if qsort = Some (JStr ''asc'') then oldestFirst dp view else newestFirst dp view)))"
proof -
  have sorted_view: "\<exists>view. payload (fst (listApplications dp qstatus qsort d)) = JArr (map JObj view)
           \<and> mset view = mset (filterByStatus qstatus (readData d))
           \<and> (if qsort = Some (JStr ''asc'') then oldestFirst dp view else newestFirst dp view)"
    if sort: "truthy qsort" and valid: "\<forall>a \<in> set (readData d). dateOf dp a \<noteq> None"
  proof -
    from valid filterByStatus_subset [of qstatus "readData d"]
    have v: "\<forall>a \<in> set (filterByStatus qstatus (readData d)). dateOf dp a \<noteq> None"
      by blast
    show ?thesis
    proof (cases "qsort = Some (JStr ''asc'')")
      case True
      then have "payload (fst (listApplications dp qstatus qsort d))
          = JArr (map JObj (sort_key (timeValue dp) (filterByStatus qstatus (readData d))))"
        by (simp add: listApplications_def Let_def jsSort_cmpAsc [OF v])
      with True show ?thesis
        by (auto simp: oldestFirst_sort_key)
    next
      case False
      then have "\<not> strictEq qsort (Some (JStr ''asc''))"
        by (cases qsort rule: truthy.cases) auto
      with sort have "payload (fst (listApplications dp qstatus qsort d))
          = JArr (map JObj (sort_key (\<lambda>a. - timeValue dp a) (filterByStatus qstatus (readData d))))"
        by (simp add: listApplications_def Let_def jsSort_cmpDesc [OF v])
      with False show ?thesis
        by (auto simp: newestFirst_sort_key)
    qed
  qed
  have "snd (listApplications dp qstatus qsort d) = d"
    by (simp add: listApplications_def Let_def)
  moreover have "\<not> truthy qsort \<longrightarrow>
        payload (fst (listApplications dp qstatus qsort d))
          = JArr (map JObj (filterByStatus qstatus (readData d)))"
    by (simp add: listApplications_def Let_def)
  ultimately show ?thesis using sorted_view by blast
qed

theorem listApplications_order_witness:
  "snd (listApplications isoDateParse None (Some (JStr ''asc'')) sampleDisk) = sampleDisk
   \<and> payload (fst (listApplications isoDateParse None None sampleDisk)) = JArr (map JObj sampleData)
   \<and> payload (fst (listApplications isoDateParse None (Some (JStr ''asc'')) sampleDisk))
       = JArr (map JObj [amazonApp, netflixApp, metaApp, googleApp, microsoftApp])
   \<and> oldestFirst isoDateParse [amazonApp, netflixApp, metaApp, googleApp, microsoftApp]
   \<and> payload (fst (listApplications isoDateParse None (Some (JStr ''desc'')) sampleDisk))
       = JArr (map JObj [microsoftApp, googleApp, metaApp, netflixApp, amazonApp])
   \<and> newestFirst isoDateParse [microsoftApp, googleApp, metaApp, netflixApp, amazonApp]"
proof -
  have valid: "\<forall>a \<in> set (readData sampleDisk). dateOf isoDateParse a \<noteq> None"
    using sample_dates_valid by (simp add: readData_def sampleDisk_def)
  have t: "timeValue isoDateParse googleApp = 1768003200000"
    "timeValue isoDateParse metaApp = 1767830400000"
    "timeValue isoDateParse netflixApp = 1767571200000"
    "timeValue isoDateParse amazonApp = 1767398400000"
    "timeValue isoDateParse microsoftApp = 1768176000000"
    using sample_times by (simp_all add: sampleData_def)
  have data: "readData sampleDisk = sampleData" "filterByStatus None sampleData = sampleData"
    by (simp_all add: readData_def sampleDisk_def filterByStatus_def)
  have asc: "sort_key (timeValue isoDateParse) sampleData
      = [amazonApp, netflixApp, metaApp, googleApp, microsoftApp]"
    by (simp add: sampleData_def t)
  have desc: "sort_key (\<lambda>a. - timeValue isoDateParse a) sampleData
      = [microsoftApp, googleApp, metaApp, netflixApp, amazonApp]"
    by (simp add: sampleData_def t)
  have a: "payload (fst (listApplications isoDateParse None (Some (JStr ''asc'')) sampleDisk))
       = JArr (map JObj [amazonApp, netflixApp, metaApp, googleApp, microsoftApp])"
    using valid by (simp add: listApplications_def Let_def jsSort_cmpAsc data asc)
  have b: "payload (fst (listApplications isoDateParse None (Some (JStr ''desc'')) sampleDisk))
       = JArr (map JObj [microsoftApp, googleApp, metaApp, netflixApp, amazonApp])"
    using valid by (simp add: listApplications_def Let_def jsSort_cmpDesc data desc)
  from listApplications_order [of isoDateParse None "Some (JStr ''asc'')" sampleDisk]
    listApplications_order [of isoDateParse None None sampleDisk]
    listApplications_order [of isoDateParse None "Some (JStr ''desc'')" sampleDisk]
    a b valid
  show ?thesis
    by (simp add: data oldestFirst_def newestFirst_def t)
qed

subsection \<open>The derived view of the client\<close>

lemma startsWith_prefix: "startsWith s t = prefix t s"
  by (induction s t rule: startsWith.induct) auto

lemma strIncludes_sublist: "strIncludes s t = sublist t s"
  by (induction s) (auto simp: startsWith_prefix sublist_Cons_right)

lemma filterThrowing_total:
  assumes "\<forall>x \<in> set xs. P x = Inr (Q x)"
  shows "filterThrowing P xs = Inr (filter Q xs)"
  using assms by (induction xs) auto

lemma matchesSearch_wellFormed:
  assumes "wellFormed dp a"
  shows "matchesSearch t a =
     Inr (containsTerm (getProp (JObj a) ''company'') t \<or> containsTerm (getProp (JObj a) ''role'') t)"
proof -
  from assms obtain c r where "map_of a ''company'' = Some (JStr c)" "map_of a ''role'' = Some (JStr r)"
    by (auto simp: wellFormed_def elim!: isString.elims)
  then show ?thesis
    by (simp add: matchesSearch_def containsTerm_def strIncludes_sublist)
qed

lemma strictEq_JStr: "strictEq v (Some (JStr s)) = (v = Some (JStr s))"
  by (cases v rule: truthy.cases) auto

text \<open>
  C8. For a collection of well-formed records (company and role are strings, the date is
  valid) the effect computes the view of the four steps, and the view is ordered by date
  as the toggle says.
\<close>

theorem deriveView_is_specView:
  assumes "\<forall>a \<in> set apps. wellFormed dp a"
  shows "deriveView dp apps filterStatus searchTerm sortOrder
           = Inr (specView dp apps filterStatus searchTerm sortOrder)
    \<and> (if sortOrder = ''desc'' then newestFirst dp (specView dp apps filterStatus searchTerm sortOrder)
        else oldestFirst dp (specView dp apps filterStatus searchTerm sortOrder))"
proof -
  define step2 where "step2 =
    (if filterStatus = ''All'' then apps
     else filter (\<lambda>a. getProp (JObj a) ''status'' = Some (JStr filterStatus)) apps)"
  define step3 where "step3 =
    (if searchTerm = [] then step2
     else filter (\<lambda>a. containsTerm (getProp (JObj a) ''company'') searchTerm
                      \<or> containsTerm (getProp (JObj a) ''role'') searchTerm) step2)"
  have sub: "set step3 \<subseteq> set step2" "set step2 \<subseteq> set apps"
    by (auto simp: step2_def step3_def)
  with assms have wf2: "\<forall>a \<in> set step2. wellFormed dp a" and wf3: "\<forall>a \<in> set step3. wellFormed dp a"
    by blast+
  from wf3 have dates: "\<forall>a \<in> set step3. dateOf dp a \<noteq> None"
    by (simp add: wellFormed_def)
  have "filterThrowing (matchesSearch searchTerm) step2
      = Inr (filter (\<lambda>a. containsTerm (getProp (JObj a) ''company'') searchTerm
                          \<or> containsTerm (getProp (JObj a) ''role'') searchTerm) step2)"
  proof (rule filterThrowing_total, rule ballI)
    fix a
    assume "a \<in> set step2"
    with wf2 have "wellFormed dp a" by blast
    then show "matchesSearch searchTerm a
        = Inr (containsTerm (getProp (JObj a) ''company'') searchTerm
               \<or> containsTerm (getProp (JObj a) ''role'') searchTerm)"
      by (rule matchesSearch_wellFormed)
  qed
  then have search: "(if searchTerm \<noteq> [] then filterThrowing (matchesSearch searchTerm) step2 else Inr step2)
      = Inr step3"
    by (simp add: step3_def)
  have status: "(if filterStatus \<noteq> ''All''
       then filter (\<lambda>app. strictEq (getProp (JObj app) ''status'') (Some (JStr filterStatus))) apps
       else apps) = step2"
    by (simp add: step2_def strictEq_JStr)
  have code: "deriveView dp apps filterStatus searchTerm sortOrder
      = Inr (jsSort (if sortOrder = ''desc'' then cmpDesc dp else cmpAsc dp) step3)"
    unfolding deriveView_def Let_def status search by simp
  have spec: "specView dp apps filterStatus searchTerm sortOrder
      = (if sortOrder = ''desc'' then sort_key (\<lambda>a. - timeValue dp a) step3
         else sort_key (timeValue dp) step3)"
    by (simp add: specView_def Let_def step2_def step3_def)
  show ?thesis
  proof (cases "sortOrder = ''desc''")
    case True
    have a: "deriveView dp apps filterStatus searchTerm sortOrder
        = Inr (sort_key (\<lambda>a. - timeValue dp a) step3)"
      using code True jsSort_cmpDesc [OF dates] by simp
    have b: "specView dp apps filterStatus searchTerm sortOrder = sort_key (\<lambda>a. - timeValue dp a) step3"
      using spec True by simp
    show ?thesis
      unfolding a b using True by (simp add: newestFirst_sort_key)
  next
    case False
    have a: "deriveView dp apps filterStatus searchTerm sortOrder = Inr (sort_key (timeValue dp) step3)"
      using code False jsSort_cmpAsc [OF dates] by simp
    have b: "specView dp apps filterStatus searchTerm sortOrder = sort_key (timeValue dp) step3"
      using spec False by simp
    show ?thesis
      unfolding a b using False by (simp add: oldestFirst_sort_key)
  qed
qed

lemma sample_wellFormed: "\<forall>a \<in> set sampleData. wellFormed isoDateParse a"
  by code_simp

theorem deriveView_is_specView_witness:
  "deriveView isoDateParse sampleData ''Applied'' ''ENGINEER'' ''desc'' = Inr [microsoftApp, metaApp]
   \<and> specView isoDateParse sampleData ''Applied'' ''ENGINEER'' ''desc'' = [microsoftApp, metaApp]
   \<and> newestFirst isoDateParse [microsoftApp, metaApp]"
proof -
  have view: "deriveView isoDateParse sampleData ''Applied'' ''ENGINEER'' ''desc''
      = Inr [microsoftApp, metaApp]"
    by code_simp
  from deriveView_is_specView [OF sample_wellFormed, of "''Applied''" "''ENGINEER''" "''desc''"] view
  show ?thesis by simp
qed

subsection \<open>Reading and writing the data file\<close>

lemma jsSort_Nil: "jsSort cmp [] = []"
  by (simp add: jsSort_def)

lemma readData_unreadable: "content d = None \<Longrightarrow> readData d = []"
  by (simp add: readData_def)

lemma countStatus_statusCount: "countStatus s apps = statusCount s apps"
  by (simp add: countStatus_def statusCount_def strictEq_JStr)

text \<open>
  C9 fails on the code: \<^verbatim>\<open>readData\<close> catches the failure to read and returns
  \<^verbatim>\<open>[]\<close>, so on an unreadable file List and Stats answer 200 and Get answers 404.
\<close>

theorem unreadable_file_counterexample:
  "content unreadableDisk = None
   \<and> code (fst (listApplications isoDateParse None None unreadableDisk)) = 200
   \<and> code (fst (getApplication ''1'' unreadableDisk)) = 404
   \<and> code (fst (getStats unreadableDisk)) = 200"
  by (simp add: unreadableDisk_def listApplications_def getApplication_def getStats_def
      readData_def notFound_def Let_def)

text \<open>
  C9, as the code has it. When the data file cannot be read, the routes answer as on an
  empty collection: List 200 with an empty array, Get 404, Stats 200 with total 0 and
  rate "0%". The answer 500, with a generic error and the message of the I/O error, is
  that of a failed write: a valid create on a file that cannot be written.
\<close>

theorem unreadable_file_reads_as_empty:
  "(content d = None \<longrightarrow>
      listApplications dp qstatus qsort d = (\<lparr>code = 200, payload = JArr []\<rparr>, d)
      \<and> getApplication pid d = (notFound pid, d)
      \<and> code (notFound pid) = 404
      \<and> code (fst (getStats d)) = 200
      \<and> getProp (payload (fst (getStats d))) ''total'' = Some (JNum 0)
      \<and> getProp (payload (fst (getStats d))) ''successRate'' = Some (JStr ''0%''))
   \<and> (isValid (validateApplication dp body) \<and> writeError d = Some msg \<longrightarrow>
        createApplication dp now body d = (serverError ''Failed to create application'' msg, d)
        \<and> code (serverError ''Failed to create application'' msg) = 500)"
proof -
  have "listApplications dp qstatus qsort d = (\<lparr>code = 200, payload = JArr []\<rparr>, d)"
    if "content d = None"
    using readData_unreadable [OF that]
    by (simp add: listApplications_def Let_def filterByStatus_def jsSort_Nil)
  moreover have "getApplication pid d = (notFound pid, d)" if "content d = None"
    using readData_unreadable [OF that] by (simp add: getApplication_def Let_def)
  moreover have "code (notFound pid) = 404"
    by (simp add: notFound_def)
  moreover have "code (fst (getStats d)) = 200
      \<and> getProp (payload (fst (getStats d))) ''total'' = Some (JNum 0)
      \<and> getProp (payload (fst (getStats d))) ''successRate'' = Some (JStr ''0%'')"
    if "content d = None"
    using readData_unreadable [OF that] by (simp add: getStats_def Let_def successRate_def)
  moreover have "createApplication dp now body d = (serverError ''Failed to create application'' msg, d)
        \<and> code (serverError ''Failed to create application'' msg) = 500"
    if "isValid (validateApplication dp body)" "writeError d = Some msg"
    using that by (simp add: createApplication_def Let_def writeData_def serverError_def)
  ultimately show ?thesis by blast
qed

theorem unreadable_file_reads_as_empty_witness:
  "listApplications isoDateParse None (Some (JStr ''asc'')) unreadableDisk
     = (\<lparr>code = 200, payload = JArr []\<rparr>, unreadableDisk)
   \<and> getApplication ''1'' unreadableDisk = (notFound ''1'', unreadableDisk)
   \<and> getProp (payload (fst (getStats unreadableDisk))) ''successRate'' = Some (JStr ''0%'')
   \<and> createApplication isoDateParse 1769904000000 acmeBody readOnlyDisk
     = (serverError ''Failed to create application'' ''EACCES: permission denied'', readOnlyDisk)"
proof -
  have unreadable: "content unreadableDisk = None"
    by (simp add: unreadableDisk_def)
  have readOnly: "writeError readOnlyDisk = Some ''EACCES: permission denied''"
    by (simp add: readOnlyDisk_def)
  from unreadable_file_reads_as_empty
         [of unreadableDisk isoDateParse None "Some (JStr ''asc'')" "''1''" acmeBody _ 1769904000000]
       unreadable_file_reads_as_empty
         [of readOnlyDisk isoDateParse None None "''1''" acmeBody "''EACCES: permission denied''" 1769904000000]
       unreadable acmeBody_valid readOnly
  show ?thesis by simp
qed

subsection \<open>Statistics\<close>

lemma rate_one_in_five: "toFixed2 (mulDouble (divLengths 1 5) 100) = ''20.00''"
  by code_simp

lemma sample_offers: "statusCount ''Offer'' sampleData = 1"
  by code_simp

text \<open>
  The error of the double arithmetic. The bit length brackets a positive integer between
  two powers of two, rounding a ratio to an integer moves it by at most a half, and so
  rounding a ratio to a double moves it by at most its \<open>2^53\<close>-th part.
\<close>

lemma bitLength_pos: "0 < n \<Longrightarrow> bitLength n = 1 + bitLength (n div 2)"
  by (subst bitLength.simps) simp

lemma bitLength_nonpos: "n \<le> 0 \<Longrightarrow> bitLength n = 0"
  by (subst bitLength.simps) simp

lemma bitLength_bounds:
  "0 < n \<Longrightarrow> 1 \<le> bitLength n \<and> 2 ^ nat (bitLength n - 1) \<le> n \<and> n < 2 ^ nat (bitLength n)"
proof (induction n rule: bitLength.induct)
  case (1 n)
  show ?case
  proof (cases "n div 2 = 0")
    case True
    with "1.prems" have "n = 1" by presburger
    then show ?thesis
      by (simp add: bitLength_pos bitLength_nonpos)
  next
    case False
    with "1.prems" have half: "0 < n div 2" by presburger
    from "1.prems" have "\<not> n \<le> 0" by simp
    from "1.IH" [OF this half]
    have IH: "1 \<le> bitLength (n div 2)" "2 ^ nat (bitLength (n div 2) - 1) \<le> n div 2"
      "n div 2 < 2 ^ nat (bitLength (n div 2))"
      by simp_all
    define b where "b = bitLength (n div 2)"
    have bl: "bitLength n = 1 + b"
      using "1.prems" by (simp add: bitLength_pos b_def)
    from IH(1) have "nat b = Suc (nat (b - 1))" "nat (1 + b) = Suc (nat b)"
      by (simp_all add: b_def Suc_nat_eq_nat_zadd1)
    then have pw: "2 ^ nat (bitLength n - 1) = (2::int) * 2 ^ nat (b - 1)"
      "2 ^ nat (bitLength n) = (2::int) * 2 ^ nat b"
      by (simp_all add: bl)
    have "2 * 2 ^ nat (b - 1) \<le> 2 * (n div 2)"
      using IH(2) by (simp add: b_def)
    also have "\<dots> \<le> n" by presburger
    finally have lower: "2 ^ nat (bitLength n - 1) \<le> n"
      by (simp only: pw)
    have "n < 2 * (n div 2) + 2" by presburger
    also have "\<dots> \<le> 2 * 2 ^ nat b"
      using IH(3) by (simp add: b_def)
    finally have upper: "n < 2 ^ nat (bitLength n)"
      by (simp only: pw)
    from IH(1) lower upper show ?thesis
      by (simp add: bl b_def)
  qed
qed

lemma roundHalfEven_error:
  assumes "0 < den"
  shows "\<bar>real_of_int (roundHalfEven num den) - real_of_int num / real_of_int den\<bar> \<le> 1 / 2"
proof -
  define f where "f = num div den"
  define r where "r = num mod den"
  have num: "num = den * f + r"
    by (simp add: f_def r_def)
  from assms have r: "0 \<le> r" "r < den"
    by (simp_all add: r_def)
  have q: "real_of_int num / real_of_int den = real_of_int f + real_of_int r / real_of_int den"
    using assms by (simp add: num field_simps)
  have frac: "0 \<le> real_of_int r / real_of_int den" "real_of_int r / real_of_int den < 1"
    using assms r by simp_all
  consider "2 * r < den" | "den < 2 * r" | "2 * r = den" by linarith
  then show ?thesis
  proof cases
    case 1
    then have "roundHalfEven num den = f"
      by (simp add: roundHalfEven_def Let_def f_def r_def)
    moreover from 1 assms have "real_of_int r / real_of_int den < 1 / 2"
      by (simp add: field_simps)
    ultimately show ?thesis using q frac by simp
  next
    case 2
    then have "roundHalfEven num den = f + 1"
      by (simp add: roundHalfEven_def Let_def f_def r_def)
    moreover from 2 assms have "1 / 2 < real_of_int r / real_of_int den"
      by (simp add: field_simps)
    ultimately show ?thesis using q frac by simp
  next
    case 3
    then have "roundHalfEven num den = f \<or> roundHalfEven num den = f + 1"
      by (simp add: roundHalfEven_def Let_def f_def r_def)
    moreover from 3 assms have "real_of_int r / real_of_int den = 1 / 2"
      by (simp add: field_simps)
    ultimately show ?thesis using q by auto
  qed
qed

lemma roundHalfEven_nonneg: "0 \<le> num \<Longrightarrow> 0 < den \<Longrightarrow> 0 \<le> roundHalfEven num den"
  by (auto simp: roundHalfEven_def Let_def pos_imp_zdiv_nonneg_iff)

lemma two_powr_int:
  "0 \<le> e \<Longrightarrow> 2 powr real_of_int e = 2 ^ nat e"
  "e < 0 \<Longrightarrow> 2 powr real_of_int e = 1 / 2 ^ nat (- e)"
  by (simp_all add: powr_real_of_int field_simps)

lemma doubleVal_powr: "doubleVal x = real_of_int (mant x) * 2 powr real_of_int (expo x)"
  by (cases "0 \<le> expo x") (simp_all add: doubleVal_def doubleNum_def doubleDen_def two_powr_int)

lemma roundRatio_error:
  assumes "0 < p" and "0 < q"
  shows "\<bar>doubleVal (roundRatio p q) - real_of_int p / real_of_int q\<bar>
           \<le> real_of_int p / real_of_int q / 2 ^ 53
         \<and> 0 \<le> mant (roundRatio p q)"
proof -
  define x where "x = real_of_int p / real_of_int q"
  define e0 where "e0 = bitLength p - bitLength q"
  define e where "e = (if (if 0 \<le> e0 then q * 2 ^ nat e0 \<le> p else q \<le> p * 2 ^ nat (- e0)) then e0 else e0 - 1)"
  define u where "u = e - 52"
  define m where "m = (if 0 \<le> u then roundHalfEven p (q * 2 ^ nat u) else roundHalfEven (p * 2 ^ nat (- u)) q)"
  have rr: "roundRatio p q = \<lparr>mant = m, expo = u\<rparr>"
    using assms by (simp add: roundRatio_def Let_def e0_def e_def u_def m_def)
  have xpos: "0 < x"
    using assms by (simp add: x_def)
  have cond: "(if 0 \<le> e0 then q * 2 ^ nat e0 \<le> p else q \<le> p * 2 ^ nat (- e0)) = (2 powr real_of_int e0 \<le> x)"
  proof (cases "0 \<le> e0")
    case True
    have "(q * 2 ^ nat e0 \<le> p) = (real_of_int (q * 2 ^ nat e0) \<le> real_of_int p)"
      by (simp only: of_int_le_iff)
    also have "\<dots> = (2 ^ nat e0 \<le> x)"
      using assms by (simp add: x_def field_simps)
    finally show ?thesis using True by (simp add: two_powr_int)
  next
    case False
    have "(q \<le> p * 2 ^ nat (- e0)) = (real_of_int q \<le> real_of_int (p * 2 ^ nat (- e0)))"
      by (simp only: of_int_le_iff)
    also have "\<dots> = (1 / 2 ^ nat (- e0) \<le> x)"
      using assms by (simp add: x_def field_simps)
    finally show ?thesis using False by (simp add: two_powr_int)
  qed
  have low: "2 powr real_of_int (e0 - 1) \<le> x"
  proof -
    from bitLength_bounds [OF assms(1)] bitLength_bounds [OF assms(2)]
    have bp: "1 \<le> bitLength p" "2 ^ nat (bitLength p - 1) \<le> p"
      and bq: "1 \<le> bitLength q" "q < 2 ^ nat (bitLength q)"
      by simp_all
    from bp(2) have "real_of_int (2 ^ nat (bitLength p - 1)) \<le> real_of_int p"
      by (simp only: of_int_le_iff)
    moreover from bp(1) have "2 powr real_of_int (bitLength p - 1) = 2 ^ nat (bitLength p - 1)"
      by (intro two_powr_int(1)) simp
    ultimately have P: "2 powr real_of_int (bitLength p - 1) \<le> real_of_int p"
      by simp
    from bq(2) have "real_of_int q < real_of_int (2 ^ nat (bitLength q))"
      by (simp only: of_int_less_iff)
    moreover from bq(1) have "2 powr real_of_int (bitLength q) = 2 ^ nat (bitLength q)"
      by (intro two_powr_int(1)) simp
    ultimately have Q: "real_of_int q \<le> 2 powr real_of_int (bitLength q)"
      by simp
    have "real_of_int (e0 - 1) = real_of_int (bitLength p - 1) - real_of_int (bitLength q)"
      by (simp add: e0_def)
    then have "2 powr real_of_int (e0 - 1) = 2 powr real_of_int (bitLength p - 1) / 2 powr real_of_int (bitLength q)"
      by (simp only: powr_diff)
    also have "\<dots> \<le> real_of_int p / 2 powr real_of_int (bitLength q)"
      using P by (simp add: divide_right_mono)
    also have "\<dots> \<le> real_of_int p / real_of_int q"
      using Q assms by (simp add: frac_le)
    finally show ?thesis by (simp add: x_def)
  qed
  have e_le: "2 powr real_of_int e \<le> x"
    using cond low by (simp add: e_def)
  have upos: "0 < 2 powr real_of_int u"
    by simp
  have m_err: "\<bar>real_of_int m - x / 2 powr real_of_int u\<bar> \<le> 1 / 2"
  proof (cases "0 \<le> u")
    case True
    from assms have "0 < q * 2 ^ nat u" by simp
    from roundHalfEven_error [OF this, of p] True show ?thesis
      by (simp add: m_def x_def two_powr_int)
  next
    case False
    from roundHalfEven_error [OF assms(2), of "p * 2 ^ nat (- u)"] False show ?thesis
      by (simp add: m_def x_def two_powr_int)
  qed
  have m_nonneg: "0 \<le> m"
    using assms by (simp add: m_def roundHalfEven_nonneg)
  have "doubleVal (roundRatio p q) - x = (real_of_int m - x / 2 powr real_of_int u) * 2 powr real_of_int u"
    by (simp add: rr doubleVal_powr field_simps)
  then have "\<bar>doubleVal (roundRatio p q) - x\<bar> = \<bar>real_of_int m - x / 2 powr real_of_int u\<bar> * 2 powr real_of_int u"
    by (simp add: abs_mult)
  also have "\<dots> \<le> 1 / 2 * 2 powr real_of_int u"
    using m_err by (simp add: mult_right_mono)
  also have "\<dots> = 2 powr real_of_int e / 2 ^ 53"
  proof -
    have "2 powr real_of_int u = 2 powr real_of_int e / 2 powr 52"
      by (simp add: u_def powr_diff)
    then show ?thesis by simp
  qed
  also have "\<dots> \<le> x / 2 ^ 53"
    using e_le by (simp add: divide_right_mono)
  finally show ?thesis
    using m_nonneg by (simp add: x_def rr)
qed

lemma roundRatio_error_nonneg:
  assumes "0 \<le> p" and "0 < q"
  shows "\<bar>doubleVal (roundRatio p q) - real_of_int p / real_of_int q\<bar>
           \<le> real_of_int p / real_of_int q / 2 ^ 53
         \<and> 0 \<le> mant (roundRatio p q)"
proof (cases "p = 0")
  case True
  then show ?thesis
    by (simp add: roundRatio_def doubleVal_def doubleNum_def doubleDen_def)
next
  case False
  with assms(1) have "0 < p" by simp
  then show ?thesis using assms(2) by (rule roundRatio_error)
qed

lemma doubleDen_pos: "0 < doubleDen x"
  by (simp add: doubleDen_def)

lemma doubleNum_nonneg: "0 \<le> mant x \<Longrightarrow> 0 \<le> doubleNum x"
  by (simp add: doubleNum_def)

lemma mulDouble_error:
  assumes "0 \<le> mant x" and "0 \<le> k"
  shows "\<bar>doubleVal (mulDouble x k) - doubleVal x * real_of_int k\<bar>
           \<le> doubleVal x * real_of_int k / 2 ^ 53
         \<and> 0 \<le> mant (mulDouble x k)"
proof -
  from assms have "0 \<le> doubleNum x * k"
    by (simp add: doubleNum_nonneg)
  from roundRatio_error_nonneg [OF this doubleDen_pos [of x]]
  show ?thesis
    by (simp add: mulDouble_def doubleVal_def)
qed

lemma digits_small: "0 \<le> n \<Longrightarrow> n < 10 \<Longrightarrow> digits n = [char_of (48 + n)]"
  by (subst digits.simps) simp

lemma digits_large: "10 \<le> n \<Longrightarrow> digits n = digits (n div 10) @ [char_of (48 + n mod 10)]"
  by (subst digits.simps) simp

lemma char_of_48: "char_of (48 :: int) = CHR ''0''"
  by code_simp

lemma length_digits_pos: "0 < length (digits n)"
  by (subst digits.simps) simp

lemma pad_one: "replicate (3 - length [c]) CHR ''0'' @ [c] = [CHR ''0'', CHR ''0'', c]"
  by (simp add: numeral_3_eq_3)

lemma pad_two: "replicate (3 - length [c, d]) CHR ''0'' @ [c, d] = [CHR ''0'', c, d]"
  by (simp add: numeral_3_eq_3)

lemma toFixed2_text:
  assumes "0 \<le> mant x"
  shows "toFixed2 x @ ''%'' = percentText ((200 * doubleNum x + doubleDen x) div (2 * doubleDen x))"
proof -
  define n where "n = (200 * doubleNum x + doubleDen x) div (2 * doubleDen x)"
  define fmt :: "string \<Rightarrow> string" where "fmt = (\<lambda>m.
     let m1 = (if length m \<le> 2 then replicate (3 - length m) CHR ''0'' @ m else m)
     in take (length m1 - 2) m1 @ ''.'' @ drop (length m1 - 2) m1)"
  have fmt1: "fmt [c] = [CHR ''0'', CHR ''.'', CHR ''0'', c]" for c
    unfolding fmt_def Let_def pad_one by simp
  have fmt2: "fmt [c, d] = [CHR ''0'', CHR ''.'', c, d]" for c d
    unfolding fmt_def Let_def pad_two by simp
  have fmt3: "fmt (ds @ [c, d]) = ds @ [CHR ''.'', c, d]" if "ds \<noteq> []" for ds c d
  proof -
    from that have "\<not> length (ds @ [c, d]) \<le> 2"
      by (cases ds) simp_all
    then show ?thesis
      unfolding fmt_def Let_def by simp
  qed
  from assms doubleDen_pos [of x] have n: "0 \<le> n"
    by (simp add: n_def doubleNum_nonneg pos_imp_zdiv_nonneg_iff)
  have zero: "digits 0 = [CHR ''0'']"
    using digits_small [of 0] by (simp add: char_of_48)
  have split: "fmt (digits n)
      = digits (n div 100) @ [CHR ''.'', char_of (48 + n div 10 mod 10), char_of (48 + n mod 10)]"
  proof -
    consider "n < 10" | "10 \<le> n" "n < 100" | "100 \<le> n" by linarith
    then show ?thesis
    proof cases
      case 1
      with n have m: "digits n = [char_of (48 + n)]"
        by (rule digits_small)
      from 1 n have "n div 100 = 0" "n div 10 mod 10 = 0" "n mod 10 = n"
        by simp_all
      then show ?thesis
        unfolding m fmt1 by (simp add: zero char_of_48)
    next
      case 2
      have parts: "n = 10 * (n div 10) + n mod 10" "0 \<le> n mod 10" "n mod 10 < 10"
        by simp_all
      with 2 have small: "0 \<le> n div 10" "n div 10 < 10" by linarith+
      have "digits n = digits (n div 10) @ [char_of (48 + n mod 10)]"
        using 2(1) by (rule digits_large)
      also have "digits (n div 10) = [char_of (48 + n div 10)]"
        using small by (rule digits_small)
      finally have m: "digits n = [char_of (48 + n div 10), char_of (48 + n mod 10)]"
        by simp
      from 2 small have "n div 100 = 0" "n div 10 mod 10 = n div 10" by simp_all
      then show ?thesis
        unfolding m fmt2 by (simp add: zero)
    next
      case 3
      have parts: "n = 10 * (n div 10) + n mod 10" "0 \<le> n mod 10" "n mod 10 < 10"
        by simp_all
      with 3 have big: "10 \<le> n" "10 \<le> n div 10" by linarith+
      have "digits n = digits (n div 10) @ [char_of (48 + n mod 10)]"
        using big(1) by (rule digits_large)
      also have "digits (n div 10) = digits (n div 10 div 10) @ [char_of (48 + n div 10 mod 10)]"
        using big(2) by (rule digits_large)
      finally have "digits n
          = digits (n div 10 div 10) @ [char_of (48 + n div 10 mod 10), char_of (48 + n mod 10)]"
        by simp
      moreover have "n div 10 div 10 = n div 100"
        using zdiv_zmult2_eq [of 10 n 10] by simp
      ultimately have m: "digits n
          = digits (n div 100) @ [char_of (48 + n div 10 mod 10), char_of (48 + n mod 10)]"
        by simp
      from length_digits_pos [of "n div 100"] have "digits (n div 100) \<noteq> []"
        by auto
      then show ?thesis
        unfolding m by (rule fmt3)
    qed
  qed
  have "toFixed2 x = fmt (digits n)"
    by (simp add: toFixed2_def fmt_def n_def Let_def)
  with split show ?thesis
    by (simp add: percentText_def n_def)
qed

lemma toFixed2_error:
  "\<bar>real_of_int ((200 * doubleNum x + doubleDen x) div (2 * doubleDen x)) - 100 * doubleVal x\<bar> \<le> 1 / 2"
proof -
  define N where "N = doubleNum x"
  define D where "D = doubleDen x"
  have D: "0 < D" by (simp add: D_def doubleDen_pos)
  have "real_of_int ((200 * N + D) div (2 * D)) = real_of_int \<lfloor>real_of_int (200 * N + D) / real_of_int (2 * D)\<rfloor>"
    by (simp only: floor_divide_of_int_eq)
  moreover have "real_of_int (200 * N + D) / real_of_int (2 * D) = 100 * (real_of_int N / real_of_int D) + 1 / 2"
    using D by (simp add: field_simps)
  ultimately have "real_of_int ((200 * N + D) div (2 * D))
      = real_of_int \<lfloor>100 * (real_of_int N / real_of_int D) + 1 / 2\<rfloor>"
    by simp
  then show ?thesis
    unfolding doubleVal_def N_def [symmetric] D_def [symmetric] by linarith
qed

lemma countStatus_le: "countStatus s apps \<le> length apps"
  by (simp add: countStatus_def)

lemma successRate_accuracy:
  assumes "apps \<noteq> []"
  shows "\<exists>n. successRate apps = percentText n
    \<and> \<bar>real_of_int n - 10000 * real (statusCount ''Offer'' apps) / real (length apps)\<bar>
        \<le> 1 / 2 + 1 / 2 ^ 38"
proof -
  define t where "t = length apps"
  define k where "k = countStatus ''Offer'' apps"
  define r where "r = real k / real t"
  define x1 where "x1 = divLengths k t"
  define x2 where "x2 = mulDouble x1 100"
  define n where "n = (200 * doubleNum x2 + doubleDen x2) div (2 * doubleDen x2)"
  from assms have t: "0 < t" by (simp add: t_def)
  have "k \<le> t" by (simp add: k_def t_def countStatus_le)
  with t have r: "0 \<le> r" "r \<le> 1" by (simp_all add: r_def)
  from t roundRatio_error_nonneg [of "int k" "int t"]
  have e1: "\<bar>doubleVal x1 - r\<bar> \<le> r / 2 ^ 53" and m1: "0 \<le> mant x1"
    by (simp_all add: x1_def divLengths_def r_def)
  from mulDouble_error [OF m1, of 100]
  have e2: "\<bar>doubleVal x2 - doubleVal x1 * 100\<bar> \<le> doubleVal x1 * 100 / 2 ^ 53" and m2: "0 \<le> mant x2"
    by (simp_all add: x2_def)
  have e3: "\<bar>real_of_int n - 100 * doubleVal x2\<bar> \<le> 1 / 2"
    unfolding n_def by (rule toFixed2_error)
  have "successRate apps = toFixed2 x2 @ ''%''"
    using assms by (simp add: successRate_def x2_def x1_def k_def t_def)
  with toFixed2_text [OF m2] have shown: "successRate apps = percentText n"
    by (simp add: n_def)
  define d where "d = (1 :: real) / 2 ^ 53"
  have d: "0 < d" "30000 * d \<le> 1 / 2 ^ 38"
    by (simp_all add: d_def)
  from e1 r have a1: "\<bar>doubleVal x1 - r\<bar> \<le> d"
    by (simp add: d_def field_simps abs_le_iff) 
  with r d(1) have "doubleVal x1 \<le> 1 + d" "0 \<le> 1 + d"
    by linarith+
  then have "doubleVal x1 * 100 / 2 ^ 53 \<le> (1 + d) * 100 * d"
    by (simp add: d_def field_simps)
  also have "\<dots> \<le> 200 * d"
    using d by (simp add: d_def field_simps)
  finally have a2: "\<bar>doubleVal x2 - doubleVal x1 * 100\<bar> \<le> 200 * d"
    using e2 by linarith
  have "\<bar>real_of_int n - 10000 * r\<bar> \<le> 1 / 2 + 30000 * d"
    using a1 a2 e3 by linarith
  with d(2) have "\<bar>real_of_int n - 10000 * r\<bar> \<le> 1 / 2 + 1 / 2 ^ 38"
    by linarith
  with shown show ?thesis
    by (auto simp: r_def k_def t_def countStatus_statusCount)
qed

text \<open>
  C7. Stats answers 200 and leaves the file alone; its total is the number of records and
  its counts are the numbers of records of each status. Its rate is "0%" on the empty
  collection and "20.00%" on every collection of five records with one offer; on every
  non-empty collection it is a percentage printed with two decimals that differs from
  the exact \<open>100 * offers / total\<close> by at most half a hundredth (and \<open>2^-38\<close> hundredths
  for the rounding of the two double operations).
\<close>

theorem getStats_counts_and_rate:
  "code (fst (getStats d)) = 200 \<and> snd (getStats d) = d
   \<and> getProp (payload (fst (getStats d))) ''total'' = Some (JNum (int (length (readData d))))
   \<and> getProp (payload (fst (getStats d))) ''applied''
       = Some (JNum (int (statusCount ''Applied'' (readData d))))
   \<and> getProp (payload (fst (getStats d))) ''interview''
       = Some (JNum (int (statusCount ''Interview'' (readData d))))
   \<and> getProp (payload (fst (getStats d))) ''offer''
       = Some (JNum (int (statusCount ''Offer'' (readData d))))
   \<and> getProp (payload (fst (getStats d))) ''rejected''
       = Some (JNum (int (statusCount ''Rejected'' (readData d))))
   \<and> getProp (payload (fst (getStats d))) ''successRate'' = Some (JStr (successRate (readData d)))
   \<and> (readData d = [] \<longrightarrow> successRate (readData d) = ''0%'')
   \<and> (length (readData d) = 5 \<and> statusCount ''Offer'' (readData d) = 1
        \<longrightarrow> successRate (readData d) = ''20.00%'')
   \<and> (readData d \<noteq> [] \<longrightarrow>
        (\<exists>n. successRate (readData d) = percentText n
           \<and> \<bar>real_of_int n
                - 10000 * real (statusCount ''Offer'' (readData d)) / real (length (readData d))\<bar>
               \<le> 1 / 2 + 1 / 2 ^ 38))"
proof -
  have five: "successRate (readData d) = ''20.00%''"
    if "length (readData d) = 5" "statusCount ''Offer'' (readData d) = 1"
    using that rate_one_in_five by (simp add: successRate_def countStatus_statusCount)
  have payload: "code (fst (getStats d)) = 200 \<and> snd (getStats d) = d
   \<and> getProp (payload (fst (getStats d))) ''total'' = Some (JNum (int (length (readData d))))
   \<and> getProp (payload (fst (getStats d))) ''applied''
       = Some (JNum (int (statusCount ''Applied'' (readData d))))
   \<and> getProp (payload (fst (getStats d))) ''interview''
       = Some (JNum (int (statusCount ''Interview'' (readData d))))
   \<and> getProp (payload (fst (getStats d))) ''offer''
       = Some (JNum (int (statusCount ''Offer'' (readData d))))
   \<and> getProp (payload (fst (getStats d))) ''rejected''
       = Some (JNum (int (statusCount ''Rejected'' (readData d))))
   \<and> getProp (payload (fst (getStats d))) ''successRate'' = Some (JStr (successRate (readData d)))"
    by (simp add: getStats_def Let_def countStatus_statusCount)
  have empty: "readData d = [] \<longrightarrow> successRate (readData d) = ''0%''"
    by (simp add: successRate_def)
  from payload empty five successRate_accuracy [of "readData d"] show ?thesis
    by blast
qed

theorem getStats_counts_and_rate_witness:
  "getProp (payload (fst (getStats sampleDisk))) ''total'' = Some (JNum 5)
   \<and> getProp (payload (fst (getStats sampleDisk))) ''offer'' = Some (JNum 1)
   \<and> getProp (payload (fst (getStats sampleDisk))) ''successRate'' = Some (JStr ''20.00%'')
   \<and> percentText 2000 = ''20.00%''
   \<and> successRate (readData unreadableDisk) = ''0%''"
proof -
  have data: "readData sampleDisk = sampleData" "readData unreadableDisk = []"
    by (simp_all add: readData_def sampleDisk_def unreadableDisk_def)
  have five: "length sampleData = 5"
    by (simp add: sampleData_def)
  have shown: "percentText 2000 = ''20.00%''"
    by code_simp
  from getStats_counts_and_rate [of sampleDisk] getStats_counts_and_rate [of unreadableDisk]
  show ?thesis
    by (simp add: data five sample_offers shown)
qed

end
